theory Spec2Isabelle
  imports Complex_Main
begin

section \<open>Calendar Card Pro: logger session state and pointer interactions\<close>

text \<open>
  A shallow embedding of \<^verbatim>\<open>src/utils/logger-utils.ts\<close> and
  \<^verbatim>\<open>src/utils/interaction.ts\<close>. Module-level variables become fields of a
  record that every operation takes and returns; exceptions are values of a sum type;
  the browser (console, DOM, timers, window listeners) is an explicit part of the state.
\<close>

subsection \<open>logger-utils.ts\<close>

text \<open>The enum \<^verbatim>\<open>LogLevel\<close> with its numeric values.\<close>

datatype LogLevel = ERROR | WARN | INFO | DEBUG

fun level_value :: "LogLevel \<Rightarrow> nat" where
  "level_value ERROR = 0"
| "level_value WARN = 1"
| "level_value INFO = 2"
| "level_value DEBUG = 3"

text \<open>
  One entry per call of a \<^verbatim>\<open>console\<close> method, with the first (format) argument;
  the style arguments are constants of the module and are left out.
\<close>

datatype console_call =
    Console_groupCollapsed string
  | Console_log string
  | Console_groupEnd
  | Console_warn string
  | Console_error string

text \<open>
  The module variables \<^verbatim>\<open>DEBUG_MODE\<close>, \<^verbatim>\<open>BANNER_SHOWN\<close> and
  \<^verbatim>\<open>CURRENT_LOG_LEVEL\<close>, and the console output so far.
\<close>

record logger =
  DEBUG_MODE :: bool
  BANNER_SHOWN :: bool
  CURRENT_LOG_LEVEL :: LogLevel
  console :: "console_call list"

text \<open>The values the module variables have when the module is loaded.\<close>

definition logger_init :: logger where
  "logger_init =
     \<lparr>DEBUG_MODE = False, BANNER_SHOWN = False, CURRENT_LOG_LEVEL = WARN, console = []\<rparr>"

text \<open>
  \<^verbatim>\<open>printVersionBanner\<close>: returns at once when the flag is set, otherwise makes
  four console calls and sets the flag. (The calendar emoji of the title literal is
  outside ASCII and is left out of the modelled string.)
\<close>

definition printVersionBanner :: "string \<Rightarrow> logger \<Rightarrow> logger" where
  "printVersionBanner version L =
     (if BANNER_SHOWN L then L
      else L\<lparr>console := console L @
                [Console_groupCollapsed (''%c Calendar Card Pro%cv'' @ version @ '' ''),
                 Console_log ''%c Description: %c A calendar card that supports multiple calendars with individual styling. '',
                 Console_log ''%c GitHub: %c https://github.com/alexpfau/calendar-card-pro '',
                 Console_groupEnd],
              BANNER_SHOWN := True\<rparr>)"

definition initializeLogger :: "string \<Rightarrow> bool \<Rightarrow> logger \<Rightarrow> logger" where
  "initializeLogger version debugMode L =
     printVersionBanner version
       (L\<lparr>DEBUG_MODE := debugMode,
          CURRENT_LOG_LEVEL := (if debugMode then DEBUG else WARN)\<rparr>)"

text \<open>The string branch of \<^verbatim>\<open>error\<close>, and \<^verbatim>\<open>warn\<close>, \<^verbatim>\<open>info\<close>, \<^verbatim>\<open>debug\<close>.\<close>

definition log_error :: "string \<Rightarrow> logger \<Rightarrow> logger" where
  "log_error message L =
     (if level_value (CURRENT_LOG_LEVEL L) < level_value ERROR then L
      else L\<lparr>console := console L @ [Console_error (''%c[Calendar-Card-Pro] '' @ message)]\<rparr>)"

definition log_warn :: "string \<Rightarrow> logger \<Rightarrow> logger" where
  "log_warn message L =
     (if level_value (CURRENT_LOG_LEVEL L) \<ge> level_value WARN
      then L\<lparr>console := console L @ [Console_warn (''%c[Calendar-Card-Pro] '' @ message)]\<rparr>
      else L)"

definition log_info :: "string \<Rightarrow> logger \<Rightarrow> logger" where
  "log_info message L =
     (if level_value (CURRENT_LOG_LEVEL L) \<ge> level_value INFO
      then L\<lparr>console := console L @ [Console_log (''%c[Calendar-Card-Pro] '' @ message)]\<rparr>
      else L)"

definition log_debug :: "string \<Rightarrow> logger \<Rightarrow> logger" where
  "log_debug message L =
     (if level_value (CURRENT_LOG_LEVEL L) \<ge> level_value DEBUG
      then L\<lparr>console := console L @ [Console_log (''%c[Calendar-Card-Pro] '' @ message)]\<rparr>
      else L)"

definition setLogLevel :: "LogLevel \<Rightarrow> logger \<Rightarrow> logger" where
  "setLogLevel level L = L\<lparr>CURRENT_LOG_LEVEL := level\<rparr>"

definition setDebugMode :: "bool \<Rightarrow> logger \<Rightarrow> logger" where
  "setDebugMode enable L =
     log_info (''Debug mode '' @ (if enable then ''enabled'' else ''disabled''))
       (L\<lparr>DEBUG_MODE := enable,
          CURRENT_LOG_LEVEL := (if enable then DEBUG else WARN)\<rparr>)"

text \<open>
  A session is a sequence of calls of the exported functions that touch the module
  variables or the console.
\<close>

datatype logger_call =
    Call_initializeLogger string bool
  | Call_printVersionBanner string
  | Call_error string
  | Call_warn string
  | Call_info string
  | Call_debug string
  | Call_setLogLevel LogLevel
  | Call_setDebugMode bool

fun logger_step :: "logger_call \<Rightarrow> logger \<Rightarrow> logger" where
  "logger_step (Call_initializeLogger v d) L = initializeLogger v d L"
| "logger_step (Call_printVersionBanner v) L = printVersionBanner v L"
| "logger_step (Call_error m) L = log_error m L"
| "logger_step (Call_warn m) L = log_warn m L"
| "logger_step (Call_info m) L = log_info m L"
| "logger_step (Call_debug m) L = log_debug m L"
| "logger_step (Call_setLogLevel l) L = setLogLevel l L"
| "logger_step (Call_setDebugMode e) L = setDebugMode e L"

fun logger_session :: "logger_call list \<Rightarrow> logger \<Rightarrow> logger" where
  "logger_session [] L = L"
| "logger_session (c # cs) L = logger_session cs (logger_step c L)"

text \<open>The number of banners on the console: only the banner opens a collapsed group.\<close>

fun is_banner_head :: "console_call \<Rightarrow> bool" where
  "is_banner_head (Console_groupCollapsed _) = True"
| "is_banner_head _ = False"

definition banners :: "logger \<Rightarrow> nat" where
  "banners L = length (filter is_banner_head (console L))"

subsection \<open>interaction.ts: the primary entity\<close>

text \<open>
  An element of \<^verbatim>\<open>entities\<close> is a string or an object with an \<^verbatim>\<open>entity\<close>
  field and an optional \<^verbatim>\<open>color\<close>.
\<close>

datatype EntityConfig =
    EntityString string
  | EntityObject (entity: string) (color: "string option")

datatype js_error = TypeError string | HostError string

text \<open>
  \<^verbatim>\<open>getPrimaryEntityId\<close>: \<^verbatim>\<open>entities[0]\<close> of an empty array is
  \<^verbatim>\<open>undefined\<close>, which is not a string, so the \<^verbatim>\<open>.entity\<close> access raises
  a TypeError.
\<close>

definition getPrimaryEntityId :: "EntityConfig list \<Rightarrow> js_error + string" where
  "getPrimaryEntityId entities =
     (case entities of
        [] \<Rightarrow> Inl (TypeError ''Cannot read properties of undefined (reading 'entity')'')
      | firstEntity # _ \<Rightarrow>
          (case firstEntity of
             EntityString s \<Rightarrow> Inr s
           | EntityObject e c \<Rightarrow> Inr e))"

subsection \<open>interaction.ts: dispatching an action\<close>

text \<open>
  An action descriptor. The declaration of \<^verbatim>\<open>Types.ActionConfig\<close> is not among
  the sources at hand; the record has the fields that \<^verbatim>\<open>interaction.ts\<close> reads.
  A field that may be absent is an option; \<^verbatim>\<open>service_data\<close> is an object that
  is passed through unread, here its text.
\<close>

record ActionConfig =
  action :: "string option"
  navigation_path :: "string option"
  service :: "string option"
  service_data :: "string option"
  url_path :: "string option"

text \<open>JavaScript truthiness of an optional string: present and not empty.\<close>

definition truthy :: "string option \<Rightarrow> bool" where
  "truthy v = (case v of None \<Rightarrow> False | Some s \<Rightarrow> s \<noteq> [])"

text \<open>
  What a run of the code does to the world outside the module: calls of the
  \<^verbatim>\<open>Logger\<close> functions and calls into the host (DOM events, history, the
  Home Assistant connection, the \<^verbatim>\<open>toggleExpanded\<close> callback).
\<close>

datatype effect =
    Logger_debug string
  | Logger_info string
  | Logger_warn string
  | Logger_error string
  | Dispatch_more_info string
  | History_pushState string
  | Dispatch_location_changed
  | Hass_callService string string string
  | Window_open string
  | Clear_opener
  | Call_toggleExpanded
  | Navigator_vibrate nat

fun is_logging :: "effect \<Rightarrow> bool" where
  "is_logging (Logger_debug _) = True"
| "is_logging (Logger_info _) = True"
| "is_logging (Logger_warn _) = True"
| "is_logging (Logger_error _) = True"
| "is_logging _ = False"

fun is_error_log :: "effect \<Rightarrow> bool" where
  "is_error_log (Logger_error _) = True"
| "is_error_log _ = False"

text \<open>
  The host's behaviour is not code of the module: each call into it may throw. The
  records say, for one run, which calls do.
\<close>

record Host =
  dispatchEvent_throws :: bool
  pushState_throws :: bool
  window_open_throws :: bool
  window_open_blocked :: bool
  toggleExpanded_throws :: bool
  vibrate_supported :: bool

record Hass =
  callService_throws :: bool

text \<open>
  A statement of the source is a trace of effects together with its completion: normal
  (\<open>Inr\<close>) or an exception (\<open>Inl\<close>).
\<close>

type_synonym completion = "effect list \<times> (js_error + unit)"

definition perform :: "effect \<Rightarrow> completion" where
  "perform e = ([e], Inr ())"

definition host_call :: "effect \<Rightarrow> bool \<Rightarrow> completion" where
  "host_call e throws =
     ([e], if throws then Inl (HostError ''thrown by the host'') else Inr ())"

text \<open>Statements in sequence: an exception skips the statements after it.\<close>

fun in_order :: "completion list \<Rightarrow> completion" where
  "in_order [] = ([], Inr ())"
| "in_order (m # ms) =
     (case m of
        (tr, Inl e) \<Rightarrow> (tr, Inl e)
      | (tr, Inr _) \<Rightarrow> (case in_order ms of (tr', r) \<Rightarrow> (tr @ tr', r)))"

text \<open>\<^verbatim>\<open>try { block } catch (error) { handler }\<close>.\<close>

definition try_catch :: "completion \<Rightarrow> (js_error \<Rightarrow> completion) \<Rightarrow> completion" where
  "try_catch block handler =
     (case block of
        (tr, Inl e) \<Rightarrow> (case handler e of (tr', r) \<Rightarrow> (tr @ tr', r))
      | (tr, Inr v) \<Rightarrow> (tr, Inr v))"

definition fireMoreInfo :: "Host \<Rightarrow> string \<Rightarrow> completion" where
  "fireMoreInfo h entityId =
     (if entityId = [] then perform (Logger_warn ''Cannot show more-info - no entity ID provided'')
      else in_order
        [perform (Logger_info (''Firing more-info for entity: '' @ entityId)),
         try_catch (host_call (Dispatch_more_info entityId) (dispatchEvent_throws h))
           (\<lambda>error. perform (Logger_error ''Error firing more-info event:''))])"

definition handleNavigation :: "Host \<Rightarrow> ActionConfig \<Rightarrow> completion" where
  "handleNavigation h actionConfig =
     (case navigation_path actionConfig of
        None \<Rightarrow> perform (Logger_warn ''Cannot navigate - no navigation path provided'')
      | Some path \<Rightarrow>
          if path = [] then perform (Logger_warn ''Cannot navigate - no navigation path provided'')
          else in_order
            [perform (Logger_info (''Navigating to: '' @ path)),
             try_catch
               (in_order
                  [host_call (History_pushState path) (pushState_throws h),
                   perform Dispatch_location_changed])
               (\<lambda>error. perform (Logger_error ''Error during navigation:''))])"

text \<open>\<^verbatim>\<open>String.prototype.split\<close> with a one-character separator.\<close>

fun split_on :: "char \<Rightarrow> string \<Rightarrow> string list" where
  "split_on sep [] = [[]]"
| "split_on sep (c # cs) =
     (if c = sep then [] # split_on sep cs
      else (case split_on sep cs of
              [] \<Rightarrow> [[c]]
            | p # ps \<Rightarrow> (c # p) # ps))"

definition callService :: "Hass \<Rightarrow> ActionConfig \<Rightarrow> completion" where
  "callService hs actionConfig =
     (case service actionConfig of
        None \<Rightarrow> perform (Logger_warn ''Cannot call service - no service specified'')
      | Some svc \<Rightarrow>
          if svc = [] then perform (Logger_warn ''Cannot call service - no service specified'')
          else
            (case split_on CHR ''.'' svc of
               [domain, srv] \<Rightarrow>
                 in_order
                   [perform (Logger_info (''Calling service '' @ domain @ ''.'' @ srv)),
                    try_catch
                      (host_call
                         (Hass_callService domain srv
                            (case service_data actionConfig of
                               None \<Rightarrow> ''{}''
                             | Some serviceData \<Rightarrow> serviceData))
                         (callService_throws hs))
                      (\<lambda>error. perform
                         (Logger_error (''Error calling service '' @ domain @ ''.'' @ srv @ '':'')))]
             | _ \<Rightarrow>
                 perform (Logger_error
                   (''Invalid service format: '' @ svc @ '' - must be domain.service''))))"

definition startsWith :: "string \<Rightarrow> string \<Rightarrow> bool" where
  "startsWith s p = (take (length p) s = p)"

definition openUrl :: "Host \<Rightarrow> ActionConfig \<Rightarrow> completion" where
  "openUrl h actionConfig =
     (case url_path actionConfig of
        None \<Rightarrow> perform (Logger_warn ''Cannot open URL - no URL path provided'')
      | Some path \<Rightarrow>
          if path = [] then perform (Logger_warn ''Cannot open URL - no URL path provided'')
          else in_order
            [perform (Logger_info (''Opening URL: '' @ path)),
             try_catch
               (if \<not> startsWith path ''http://'' \<and> \<not> startsWith path ''https://''
                   \<and> \<not> startsWith path ''/''
                then in_order
                  [perform (Logger_warn (''Potentially unsafe URL: '' @ path @ '' - adding https://'')),
                   host_call (Window_open (''https://'' @ path)) (window_open_throws h),
                   if window_open_blocked h then in_order [] else perform Clear_opener]
                else in_order
                  [host_call (Window_open path) (window_open_throws h),
                   if window_open_blocked h then in_order [] else perform Clear_opener])
               (\<lambda>error. perform (Logger_error ''Error opening URL:''))])"

text \<open>
  \<^verbatim>\<open>handleAction\<close>. A missing descriptor is \<open>None\<close>. The \<^verbatim>\<open>element\<close> argument
  is the card itself, the target of the more-info event; the \<^verbatim>\<open>toggleExpanded\<close>
  callback belongs to the host.
\<close>

definition handleAction :: "Host \<Rightarrow> ActionConfig option \<Rightarrow> Hass option \<Rightarrow> string \<Rightarrow> completion" where
  "handleAction h actionConfig hs entityId =
     (case actionConfig of
        None \<Rightarrow> perform (Logger_debug ''No action or action set to none - ignoring'')
      | Some cfg \<Rightarrow>
          (case action cfg of
             None \<Rightarrow> perform (Logger_debug ''No action or action set to none - ignoring'')
           | Some name \<Rightarrow>
               if name = [] \<or> name = ''none''
               then perform (Logger_debug ''No action or action set to none - ignoring'')
               else in_order
                 [perform (Logger_info (''Executing action: '' @ name)),
                  try_catch
                    (if name = ''more-info'' then fireMoreInfo h entityId
                     else if name = ''navigate'' then handleNavigation h cfg
                     else if name = ''call-service'' then
                       (case hs of
                          Some conn \<Rightarrow> callService conn cfg
                        | None \<Rightarrow> perform
                            (Logger_warn ''Cannot call service - hass object not available''))
                     else if name = ''url'' then openUrl h cfg
                     else if name = ''expand'' then
                       host_call Call_toggleExpanded (toggleExpanded_throws h)
                     else perform (Logger_warn (''Unknown action type: '' @ name)))
                    (\<lambda>error. perform
                       (Logger_error (''Error executing action '' @ name @ '':'')))]))"

subsection \<open>interaction.ts: the gesture state of one card\<close>

text \<open>
  The fields of a pointer event that the handlers read. Coordinates are real numbers,
  the distance is the square root the source computes.
\<close>

record PointerEvent =
  pointerId :: int
  pointerType :: string
  clientX :: real
  clientY :: real

record Config =
  tap_action :: "ActionConfig option"
  hold_action :: "ActionConfig option"

text \<open>\<^verbatim>\<open>config.x && config.x.action !== 'none'\<close>.\<close>

definition configured :: "ActionConfig option \<Rightarrow> bool" where
  "configured a = (case a of None \<Rightarrow> False | Some cfg \<Rightarrow> action cfg \<noteq> Some ''none'')"

text \<open>
  The arguments of \<^verbatim>\<open>setupInteractions\<close>, with the behaviour of the host for the
  element and the \<^verbatim>\<open>toggleExpanded\<close> callback.
\<close>

record Card =
  config :: Config
  hass :: "Hass option"
  entityId :: string
  host :: Host

text \<open>
  \<^verbatim>\<open>InteractionState\<close>. A timer handle is the number \<^verbatim>\<open>setTimeout\<close> returned,
  a DOM element is the number it got when it was created.
\<close>

record InteractionState =
  instanceId :: string
  holdTimer :: "nat option"
  holdTriggered :: bool
  holdIndicator :: "nat option"
  activePointerId :: "int option"
  lastActionTime :: nat
  pendingHoldAction :: bool

text \<open>
  The variables one call of \<^verbatim>\<open>pointerDownHandler\<close> creates and its three inner
  handlers and its hold callback share: the event \<^verbatim>\<open>ev\<close>, \<^verbatim>\<open>isTouch\<close>,
  \<^verbatim>\<open>ripple\<close>, \<^verbatim>\<open>hasMoved\<close>, \<^verbatim>\<open>startX\<close>, \<^verbatim>\<open>startY\<close>.
\<close>

record Gesture =
  ev :: PointerEvent
  isTouch :: bool
  ripple :: nat
  hasMoved :: bool
  startX :: real
  startY :: real

text \<open>
  A listener on \<^verbatim>\<open>window\<close> is one of the three inner handlers of a call of
  \<^verbatim>\<open>pointerDownHandler\<close>; the number says which call.
\<close>

datatype listener = On_pointermove nat | On_pointerup nat | On_pointercancel nat

text \<open>
  The functions handed to \<^verbatim>\<open>setTimeout\<close>: the hold callback of a pointer-down
  (500 ms), the ripple release of \<^verbatim>\<open>handlePointerUp\<close> (100 ms), the two stages of
  \<^verbatim>\<open>removeRippleEffect\<close> (the given delay, then 300 ms), the removal of
  \<^verbatim>\<open>removeHoldIndicator\<close> (300 ms) and the rebuild of \<^verbatim>\<open>navigationListener\<close>
  (250 ms).
\<close>

datatype timer_callback =
    Hold_elapsed nat
  | Ripple_release nat
  | Ripple_fade nat
  | Ripple_detach nat
  | Indicator_detach nat
  | Navigation_rebuild

datatype gesture_action = Tap_action | Hold_action

text \<open>
  Everything \<^verbatim>\<open>setupInteractions\<close> owns or touches: the variable \<^verbatim>\<open>state\<close>,
  \<^verbatim>\<open>activeRipples\<close>, the children of the ripple container and the hold indicators
  under \<^verbatim>\<open>document.body\<close>, the closures of the pointer-downs so far, the listeners
  on \<^verbatim>\<open>window\<close> in the order they were added, whether the element has the
  pointer-down handler and \<^verbatim>\<open>window\<close> the navigation listener, the pending timers
  as (handle, delay, callback), \<^verbatim>\<open>element.isConnected\<close>, \<^verbatim>\<open>Date.now()\<close>, the
  calls of \<^verbatim>\<open>handleAction\<close> made for a gesture, and the trace of effects. Styles and
  animation frames only change how an element looks and are left out, and so are the
  functions that only build styles and DOM layers (\<^verbatim>\<open>createInteractionStyles\<close>,
  \<^verbatim>\<open>createInteractionDom\<close>, \<^verbatim>\<open>moveContentToLayer\<close>,
  \<^verbatim>\<open>setupInteractionDom\<close>) and \<^verbatim>\<open>setupRippleEffects\<close>, which
  \<^verbatim>\<open>setupInteractions\<close> does not call. Log messages that embed the instance
  identifier or the state are cut down to their fixed text.
\<close>

record system =
  state :: InteractionState
  activeRipples :: "nat list"
  rippleContainer :: "nat list"
  body :: "nat list"
  closures :: "nat \<Rightarrow> Gesture"
  nextGesture :: nat
  windowListeners :: "listener list"
  pointerdownAttached :: bool
  navigationAttached :: bool
  timers :: "(nat \<times> nat \<times> timer_callback) list"
  nextTimer :: nat
  nextElement :: nat
  isConnected :: bool
  dateNow :: nat
  executed :: "gesture_action list"
  effects :: "effect list"

definition logged :: "effect \<Rightarrow> system \<Rightarrow> system" where
  "logged e s = s\<lparr>effects := effects s @ [e]\<rparr>"

definition setTimeout :: "timer_callback \<Rightarrow> nat \<Rightarrow> system \<Rightarrow> system" where
  "setTimeout cb delay s =
     s\<lparr>timers := timers s @ [(nextTimer s, delay, cb)], nextTimer := Suc (nextTimer s)\<rparr>"

definition clearTimeout :: "nat \<Rightarrow> system \<Rightarrow> system" where
  "clearTimeout handle s = s\<lparr>timers := filter (\<lambda>t. fst t \<noteq> handle) (timers s)\<rparr>"

definition removeEventListener :: "listener \<Rightarrow> system \<Rightarrow> system" where
  "removeEventListener l s = s\<lparr>windowListeners := remove1 l (windowListeners s)\<rparr>"

text \<open>
  \<^verbatim>\<open>createRippleEffect\<close> appends a new element to the ripple container; the element
  is \<open>nextElement\<close> of the state before.
\<close>

definition createRippleEffect :: "PointerEvent \<Rightarrow> system \<Rightarrow> system" where
  "createRippleEffect e s =
     (logged (Logger_info ''Creating ripple effect'') s)
       \<lparr>rippleContainer := rippleContainer s @ [nextElement s],
        nextElement := Suc (nextElement s)\<rparr>"

text \<open>
  \<^verbatim>\<open>removeRippleEffect\<close>: nothing for an element without parent, otherwise a timer
  for the fade, whose callback sets a timer for the removal.
\<close>

definition removeRippleEffect :: "nat \<Rightarrow> nat \<Rightarrow> system \<Rightarrow> system" where
  "removeRippleEffect rip delay s =
     (if rip \<in> set (rippleContainer s) then setTimeout (Ripple_fade rip) delay s else s)"

definition createHoldIndicator :: "PointerEvent \<Rightarrow> system \<Rightarrow> system" where
  "createHoldIndicator e s =
     (logged (Logger_info ''Creating hold indicator'') s)
       \<lparr>body := body s @ [nextElement s],
        nextElement := Suc (nextElement s)\<rparr>"

definition removeHoldIndicator :: "nat \<Rightarrow> system \<Rightarrow> system" where
  "removeHoldIndicator indicator s =
     (if indicator \<in> set (body s) then setTimeout (Indicator_detach indicator) 300 s else s)"

definition clearRippleContainer :: "system \<Rightarrow> system" where
  "clearRippleContainer s = s\<lparr>rippleContainer := [], activeRipples := []\<rparr>"

definition createFreshState :: "string \<Rightarrow> InteractionState" where
  "createFreshState iid =
     \<lparr>instanceId = iid, holdTimer = None, holdTriggered = False, holdIndicator = None,
      activePointerId = None, lastActionTime = 0, pendingHoldAction = False\<rparr>"

text \<open>
  \<^verbatim>\<open>if (state.holdTimer !== null) { clearTimeout(state.holdTimer); state.holdTimer = null; }\<close>,
  which the source writes out in five places.
\<close>

definition cancelHoldTimer :: "system \<Rightarrow> system" where
  "cancelHoldTimer s =
     (case holdTimer (state s) of
        None \<Rightarrow> s
      | Some handle \<Rightarrow> (clearTimeout handle s)\<lparr>state := (state s)\<lparr>holdTimer := None\<rparr>\<rparr>)"

text \<open>
  \<^verbatim>\<open>if (state.holdIndicator && state.holdIndicator.parentNode) { removeHoldIndicator(...); state.holdIndicator = null; }\<close>
  of \<^verbatim>\<open>handlePointerUp\<close> and \<^verbatim>\<open>handlePointerCancel\<close>.
\<close>

definition cleanUpHoldIndicator :: "system \<Rightarrow> system" where
  "cleanUpHoldIndicator s =
     (case holdIndicator (state s) of
        None \<Rightarrow> s
      | Some indicator \<Rightarrow>
          if indicator \<in> set (body s)
          then (let s1 = removeHoldIndicator indicator s
                in s1\<lparr>state := (state s1)\<lparr>holdIndicator := None\<rparr>\<rparr>)
          else s)"

definition resetInteractions :: "system \<Rightarrow> system" where
  "resetInteractions s =
     (let s1 = cancelHoldTimer s;
          s2 = (case holdIndicator (state s1) of
                  None \<Rightarrow> s1
                | Some indicator \<Rightarrow>
                    if indicator \<in> set (body s1)
                    then s1\<lparr>body := remove1 indicator (body s1),
                            state := (state s1)\<lparr>holdIndicator := None\<rparr>\<rparr>
                    else s1);
          s3 = clearRippleContainer s2;
          s4 = s3\<lparr>state := createFreshState (instanceId (state s3))\<rparr>
      in logged (Logger_debug ''Interaction state fully reset'') s4)"

text \<open>
  \<^verbatim>\<open>pointerDownHandler\<close>. The new closure gets the number \<open>nextGesture\<close>; its
  three inner handlers are added to \<^verbatim>\<open>window\<close> at the end.
\<close>

definition pointerDownHandler :: "Card \<Rightarrow> PointerEvent \<Rightarrow> system \<Rightarrow> system" where
  "pointerDownHandler inst e s =
     (let g = nextGesture s;
          s1 = s\<lparr>state := (state s)\<lparr>holdTriggered := False, pendingHoldAction := False,
                                   activePointerId := Some (pointerId e)\<rparr>\<rparr>;
          touch = (pointerType e = ''touch'');
          rip = nextElement s1;
          s2 = createRippleEffect e s1;
          s3 = s2\<lparr>activeRipples := activeRipples s2 @ [rip]\<rparr>;
          s4 = (if configured (hold_action (config inst))
                then (let s3a = cancelHoldTimer s3;
                          s3b = setTimeout (Hold_elapsed g) 500 s3a
                      in s3b\<lparr>state := (state s3b)\<lparr>holdTimer := Some (nextTimer s3a)\<rparr>\<rparr>)
                else s3);
          s5 = s4\<lparr>closures := (closures s4)
                      (g := \<lparr>ev = e, isTouch = touch, ripple = rip, hasMoved = False,
                             startX = clientX e, startY = clientY e\<rparr>),
                  nextGesture := Suc g\<rparr>
      in s5\<lparr>windowListeners := windowListeners s5 @
               [On_pointermove g, On_pointerup g, On_pointercancel g]\<rparr>)"

text \<open>
  The callback of the hold timer of closure \<open>g\<close>. It marks the hold as pending and
  shows the indicator; it executes nothing. An exception of \<^verbatim>\<open>vibrate\<close> is caught
  and ignored.
\<close>

definition holdTimerCallback :: "Card \<Rightarrow> nat \<Rightarrow> system \<Rightarrow> system" where
  "holdTimerCallback inst g s =
     (let c = closures s g
      in if activePointerId (state s) = Some (pointerId (ev c))
         then (let s1 = logged (Logger_debug ''Hold threshold reached'') s;
                   s2 = s1\<lparr>state := (state s1)\<lparr>holdTriggered := True,
                                               pendingHoldAction := True\<rparr>\<rparr>;
                   s3 = createHoldIndicator (ev c) s2;
                   s4 = s3\<lparr>state := (state s3)\<lparr>holdIndicator := Some (nextElement s2)\<rparr>\<rparr>
               in if isTouch c \<and> vibrate_supported (host inst)
                  then logged (Navigator_vibrate 50) s4
                  else s4)
         else s)"

definition handlePointerMove :: "nat \<Rightarrow> PointerEvent \<Rightarrow> system \<Rightarrow> system" where
  "handlePointerMove g moveEv s =
     (let c = closures s g
      in if activePointerId (state s) \<noteq> Some (pointerId (ev c)) then s
         else (let dx = clientX moveEv - startX c;
                   dy = clientY moveEv - startY c;
                   distance = sqrt (dx * dx + dy * dy)
               in if distance > 10
                  then cancelHoldTimer (s\<lparr>closures := (closures s)(g := c\<lparr>hasMoved := True\<rparr>)\<rparr>)
                  else s))"

text \<open>
  A location-changed event that \<^verbatim>\<open>handleNavigation\<close> dispatches on
  \<^verbatim>\<open>window\<close> reaches \<^verbatim>\<open>navigationListener\<close> at once; the listener only sets
  the 250 ms timer.
\<close>

definition navigationListener :: "system \<Rightarrow> system" where
  "navigationListener s =
     setTimeout Navigation_rebuild 250
       (logged (Logger_info ''Navigation detected, rebuilding interaction system'') s)"

fun absorb :: "effect list \<Rightarrow> system \<Rightarrow> system" where
  "absorb [] s = s"
| "absorb (e # es) s =
     absorb es
       (if e = Dispatch_location_changed \<and> navigationAttached s
        then navigationListener (logged e s)
        else logged e s)"

text \<open>
  A call \<^verbatim>\<open>handleAction(config.x_action, hass, element, entityId, toggleExpanded)\<close>
  followed by \<^verbatim>\<open>state.lastActionTime = Date.now()\<close>. If the call raised, the
  assignment would not run and the exception would leave the calling handler.
\<close>

definition executeAction ::
  "Card \<Rightarrow> gesture_action \<Rightarrow> system \<Rightarrow> js_error option \<times> system" where
  "executeAction inst which s =
     (case handleAction (host inst)
             (case which of Tap_action \<Rightarrow> tap_action (config inst)
                          | Hold_action \<Rightarrow> hold_action (config inst))
             (hass inst) (entityId inst) of
        (trace, result) \<Rightarrow>
          (let s1 = absorb trace (s\<lparr>executed := executed s @ [which]\<rparr>)
           in case result of
                Inl err \<Rightarrow> (Some err, s1)
              | Inr _ \<Rightarrow> (None, s1\<lparr>state := (state s1)\<lparr>lastActionTime := dateNow s1\<rparr>\<rparr>)))"

text \<open>The choice of the action in \<^verbatim>\<open>handlePointerUp\<close>.\<close>

definition resolveAction :: "Card \<Rightarrow> nat \<Rightarrow> system \<Rightarrow> js_error option \<times> system" where
  "resolveAction inst g s =
     (if pendingHoldAction (state s) \<and> \<not> hasMoved (closures s g)
      then (case (if configured (hold_action (config inst))
                  then executeAction inst Hold_action
                         (logged (Logger_debug ''Executing hold action on pointer up'') s)
                  else (None, logged (Logger_debug ''Executing hold action on pointer up'') s)) of
              (Some err, s') \<Rightarrow> (Some err, s')
            | (None, s') \<Rightarrow> (None, s'\<lparr>state := (state s')\<lparr>pendingHoldAction := False\<rparr>\<rparr>))
      else if \<not> holdTriggered (state s) \<and> \<not> hasMoved (closures s g)
              \<and> configured (tap_action (config inst))
      then executeAction inst Tap_action (logged (Logger_debug ''Executing tap action'') s)
      else (None, s))"

text \<open>
  \<^verbatim>\<open>handlePointerUp\<close> of closure \<open>g\<close>. The guard compares the active pointer
  with the pointer of the closure's own pointer-down, not with the event delivered.
\<close>

definition handlePointerUp :: "Card \<Rightarrow> nat \<Rightarrow> PointerEvent \<Rightarrow> system \<Rightarrow> system" where
  "handlePointerUp inst g upEv s =
     (let s1 = removeEventListener (On_pointermove g) s
      in if activePointerId (state s1) \<noteq> Some (pointerId (ev (closures s1 g))) then s1
         else (let s2 = cancelHoldTimer s1;
                   s3 = s2\<lparr>state := (state s2)\<lparr>activePointerId := None\<rparr>\<rparr>
               in case resolveAction inst g s3 of
                    (Some err, s') \<Rightarrow> s'
                  | (None, s4) \<Rightarrow>
                      (let s5 = cleanUpHoldIndicator s4;
                           s6 = s5\<lparr>state := (state s5)\<lparr>holdTriggered := False,
                                                       pendingHoldAction := False\<rparr>\<rparr>;
                           s7 = setTimeout (Ripple_release g) 100 s6
                       in removeEventListener (On_pointercancel g)
                            (removeEventListener (On_pointerup g) s7))))"

text \<open>The 100 ms callback that \<^verbatim>\<open>handlePointerUp\<close> sets.\<close>

definition rippleReleaseCallback :: "nat \<Rightarrow> system \<Rightarrow> system" where
  "rippleReleaseCallback g s =
     (let rip = ripple (closures s g)
      in if rip \<in> set (activeRipples s)
         then (let s1 = removeRippleEffect rip 100 s
               in s1\<lparr>activeRipples := remove1 rip (activeRipples s1)\<rparr>)
         else s)"

text \<open>\<^verbatim>\<open>handlePointerCancel\<close> of closure \<open>g\<close>; it has no guard on the pointer.\<close>

definition handlePointerCancel :: "nat \<Rightarrow> system \<Rightarrow> system" where
  "handlePointerCancel g s =
     (let s1 = removeEventListener (On_pointermove g) s;
          s2 = cancelHoldTimer s1;
          s3 = s2\<lparr>state := (state s2)\<lparr>activePointerId := None, holdTriggered := False,
                                     pendingHoldAction := False\<rparr>\<rparr>;
          s4 = cleanUpHoldIndicator s3;
          rip = ripple (closures s4 g);
          s5 = (if rip \<in> set (activeRipples s4)
                then (let s4a = removeRippleEffect rip 0 s4
                      in s4a\<lparr>activeRipples := remove1 rip (activeRipples s4a)\<rparr>)
                else s4)
      in removeEventListener (On_pointercancel g)
           (removeEventListener (On_pointerup g) s5))"

text \<open>
  The 250 ms callback of \<^verbatim>\<open>navigationListener\<close>: the pointer-down handler is taken
  off and put back on the element, around \<^verbatim>\<open>resetInteractions\<close>, if the element
  is connected; otherwise nothing happens.
\<close>

definition navigationRebuild :: "system \<Rightarrow> system" where
  "navigationRebuild s =
     (if isConnected s
      then logged (Logger_debug ''Interaction system fully rebuilt after navigation'')
             ((resetInteractions (s\<lparr>pointerdownAttached := False\<rparr>))
                \<lparr>pointerdownAttached := True\<rparr>)
      else s)"

text \<open>The cleanup function that \<^verbatim>\<open>setupInteractions\<close> returns.\<close>

definition cleanup :: "system \<Rightarrow> system" where
  "cleanup s =
     logged (Logger_debug ''Interaction system cleanup complete'')
       (resetInteractions (s\<lparr>pointerdownAttached := False, navigationAttached := False\<rparr>))"

text \<open>
  A closure number that no pointer-down has used yet stands for no closure; the
  function needs some value there.
\<close>

definition no_closure :: Gesture where
  "no_closure =
     \<lparr>ev = \<lparr>pointerId = 0, pointerType = [], clientX = 0, clientY = 0\<rparr>, isTouch = False,
      ripple = 0, hasMoved = False, startX = 0, startY = 0\<rparr>"

text \<open>
  \<^verbatim>\<open>setupInteractions\<close>: the state right after the call. With no action configured,
  or without a ripple container in the element, nothing is attached.
\<close>

definition setupInteractions :: "Card \<Rightarrow> bool \<Rightarrow> string \<Rightarrow> system" where
  "setupInteractions inst hasRippleContainer iid =
     (let attach = ((configured (tap_action (config inst))
                      \<or> configured (hold_action (config inst)))
                    \<and> hasRippleContainer)
      in \<lparr>state = createFreshState iid, activeRipples = [], rippleContainer = [], body = [],
          closures = (\<lambda>g. no_closure), nextGesture = 0, windowListeners = [],
          pointerdownAttached = attach, navigationAttached = attach,
          timers = [], nextTimer = 0, nextElement = 0, isConnected = True, dateNow = 0,
          executed = [],
          effects = (if \<not> (configured (tap_action (config inst))
                            \<or> configured (hold_action (config inst)))
                     then [Logger_debug ''Creating interaction setup'']
                     else if hasRippleContainer
                     then [Logger_debug ''Creating interaction setup'']
                     else [Logger_debug ''Creating interaction setup'',
                           Logger_warn ''Cannot set up interactions - missing ripple container''])\<rparr>)"

subsection \<open>The event loop\<close>

text \<open>
  What reaches the code from outside: a pointer-down on the element, pointer events
  and location-changed events on \<^verbatim>\<open>window\<close>, a pending timer running out, the
  element joining or leaving the document, the clock moving on, the owner calling the
  cleanup function.
\<close>

datatype event =
    PointerDown PointerEvent
  | PointerMove PointerEvent
  | PointerUp PointerEvent
  | PointerCancel
  | TimerFires nat
  | LocationChanged
  | ElementConnected bool
  | ClockAdvances nat
  | CleanupCalled

text \<open>
  One listener receives an event. The up and cancel handlers are added with
  \<^verbatim>\<open>once: true\<close>, so they are removed before they run.
\<close>

fun deliver :: "Card \<Rightarrow> event \<Rightarrow> listener \<Rightarrow> system \<Rightarrow> system" where
  "deliver inst (PointerMove m) (On_pointermove g) s = handlePointerMove g m s"
| "deliver inst (PointerUp u) (On_pointerup g) s =
     handlePointerUp inst g u (removeEventListener (On_pointerup g) s)"
| "deliver inst PointerCancel (On_pointercancel g) s =
     handlePointerCancel g (removeEventListener (On_pointercancel g) s)"
| "deliver inst _ _ s = s"

text \<open>
  \<^verbatim>\<open>window\<close> dispatches an event to the listeners it had when the dispatch began,
  in the order they were added, skipping one that has been removed meanwhile.
\<close>

definition dispatchWindow :: "Card \<Rightarrow> event \<Rightarrow> system \<Rightarrow> system" where
  "dispatchWindow inst e s =
     fold (\<lambda>l s'. if l \<in> set (windowListeners s') then deliver inst e l s' else s')
       (windowListeners s) s"

fun runCallback :: "Card \<Rightarrow> timer_callback \<Rightarrow> system \<Rightarrow> system" where
  "runCallback inst (Hold_elapsed g) s = holdTimerCallback inst g s"
| "runCallback inst (Ripple_release g) s = rippleReleaseCallback g s"
| "runCallback inst (Ripple_fade rip) s = setTimeout (Ripple_detach rip) 300 s"
| "runCallback inst (Ripple_detach rip) s = s\<lparr>rippleContainer := remove1 rip (rippleContainer s)\<rparr>"
| "runCallback inst (Indicator_detach i) s = s\<lparr>body := remove1 i (body s)\<rparr>"
| "runCallback inst Navigation_rebuild s = navigationRebuild s"

text \<open>A timer that runs out is no longer pending when its callback runs.\<close>

definition fireTimer :: "Card \<Rightarrow> nat \<Rightarrow> system \<Rightarrow> system" where
  "fireTimer inst handle s =
     (case find (\<lambda>t. fst t = handle) (timers s) of
        None \<Rightarrow> s
      | Some (h, delay, cb) \<Rightarrow> runCallback inst cb (clearTimeout handle s))"

fun step :: "Card \<Rightarrow> event \<Rightarrow> system \<Rightarrow> system" where
  "step inst (PointerDown e) s =
     (if pointerdownAttached s then pointerDownHandler inst e s else s)"
| "step inst (PointerMove m) s = dispatchWindow inst (PointerMove m) s"
| "step inst (PointerUp u) s = dispatchWindow inst (PointerUp u) s"
| "step inst PointerCancel s = dispatchWindow inst PointerCancel s"
| "step inst (TimerFires handle) s = fireTimer inst handle s"
| "step inst LocationChanged s = (if navigationAttached s then navigationListener s else s)"
| "step inst (ElementConnected b) s = s\<lparr>isConnected := b\<rparr>"
| "step inst (ClockAdvances n) s = s\<lparr>dateNow := dateNow s + n\<rparr>"
| "step inst CleanupCalled s = cleanup s"

fun run :: "Card \<Rightarrow> event list \<Rightarrow> system \<Rightarrow> system" where
  "run inst [] s = s"
| "run inst (e # es) s = run inst es (step inst e s)"

subsection \<open>Notions for stating the properties\<close>

text \<open>The distance of a pointer event from the pointer-down, as the move handler computes it.\<close>

definition displacement :: "PointerEvent \<Rightarrow> PointerEvent \<Rightarrow> real" where
  "displacement e m =
     sqrt ((clientX m - clientX e) * (clientX m - clientX e)
           + (clientY m - clientY e) * (clientY m - clientY e))"

fun is_hold_timer :: "nat \<times> nat \<times> timer_callback \<Rightarrow> bool" where
  "is_hold_timer (h, d, Hold_elapsed g) = True"
| "is_hold_timer (h, d, _) = False"

text \<open>A hold timer is live; the timer with a given handle is live.\<close>

definition holdPending :: "system \<Rightarrow> bool" where
  "holdPending s = list_ex is_hold_timer (timers s)"

definition isPending :: "nat \<Rightarrow> system \<Rightarrow> bool" where
  "isPending handle s = list_ex (\<lambda>t. fst t = handle) (timers s)"

text \<open>
  Handles and elements are numbered by counters, so the ones in use are below the
  counter.
\<close>

definition freshHandles :: "system \<Rightarrow> bool" where
  "freshHandles s = list_all (\<lambda>t. fst t < nextTimer s) (timers s)"

definition freshElements :: "system \<Rightarrow> bool" where
  "freshElements s =
     list_all (\<lambda>x. x < nextElement s) (activeRipples s @ rippleContainer s @ body s)"

text \<open>
  The card is idle: the handler is on the element, no gesture is in progress (no
  listener of an earlier pointer-down is left on \<^verbatim>\<open>window\<close>, the gesture state has
  its initial values but for the time of the last action), and no hold timer is live.
\<close>

definition idle :: "system \<Rightarrow> bool" where
  "idle s =
     (pointerdownAttached s \<and> windowListeners s = []
      \<and> state s = (createFreshState (instanceId (state s)))
                     \<lparr>lastActionTime := lastActionTime (state s)\<rparr>
      \<and> \<not> holdPending s \<and> freshHandles s \<and> freshElements s)"

text \<open>
  The events of one gesture between its pointer-down and its end: pointer moves and
  the running out of its hold timer.
\<close>

fun during_gesture :: "nat \<Rightarrow> event \<Rightarrow> bool" where
  "during_gesture h (PointerMove m) = True"
| "during_gesture h (TimerFires h') = (h' = h)"
| "during_gesture h _ = False"

text \<open>
  A gesture is in progress: the listeners on \<^verbatim>\<open>window\<close> are those of closure \<open>g\<close>,
  made by the pointer-down \<open>e\<close>, whose pointer is the active one.
\<close>

definition tracking :: "nat \<Rightarrow> PointerEvent \<Rightarrow> system \<Rightarrow> bool" where
  "tracking g e s =
     (windowListeners s = [On_pointermove g, On_pointerup g, On_pointercancel g]
      \<and> ev (closures s g) = e
      \<and> startX (closures s g) = clientX e
      \<and> startY (closures s g) = clientY e
      \<and> activePointerId (state s) = Some (pointerId e))"

text \<open>What the move handler of closure \<open>g\<close> does beyond the threshold.\<close>

definition markMoved :: "nat \<Rightarrow> system \<Rightarrow> system" where
  "markMoved g s =
     cancelHoldTimer (s\<lparr>closures := (closures s)(g := (closures s g)\<lparr>hasMoved := True\<rparr>)\<rparr>)"

text \<open>A callback is waiting in a timer.\<close>

definition scheduled :: "timer_callback \<Rightarrow> system \<Rightarrow> bool" where
  "scheduled cb s = list_ex (\<lambda>t. snd (snd t) = cb) (timers s)"

text \<open>
  The timer that holds a given callback runs out (the first one, if there are several):
  it is no longer pending, and its callback runs.
\<close>

definition fireCallback :: "Card \<Rightarrow> timer_callback \<Rightarrow> system \<Rightarrow> system" where
  "fireCallback inst cb s =
     (case find (\<lambda>t. snd (snd t) = cb) (timers s) of
        None \<Rightarrow> s
      | Some (handle, delay, cb') \<Rightarrow> runCallback inst cb' (clearTimeout handle s))"

text \<open>
  The states a gesture passes through between its pointer-down in the idle state
  \<open>s0\<close> and its end, when only its own events arrive: closure \<open>g\<close> is tracked, its
  ripple is the element the pointer-down made, nothing has been executed, and either
  the hold timer is still live and the hold has not fired, or no hold timer is live and
  the indicator, if the hold has fired, is the next element made.
\<close>

definition inGesture :: "Card \<Rightarrow> system \<Rightarrow> PointerEvent \<Rightarrow> system \<Rightarrow> bool" where
  "inGesture inst s0 e x =
     (tracking (nextGesture s0) e x
      \<and> ripple (closures x (nextGesture s0)) = nextElement s0
      \<and> activeRipples x = activeRipples s0 @ [nextElement s0]
      \<and> rippleContainer x = rippleContainer s0 @ [nextElement s0]
      \<and> executed x = executed s0
      \<and> pointerdownAttached x
      \<and> instanceId (state x) = instanceId (state s0)
      \<and> lastActionTime (state x) = lastActionTime (state s0)
      \<and> (if configured (hold_action (config inst))
          then nextTimer x = Suc (nextTimer s0) else nextTimer x = nextTimer s0)
      \<and> (timers x = timers s0 @ [(nextTimer s0, 500, Hold_elapsed (nextGesture s0))]
           \<and> configured (hold_action (config inst))
           \<and> holdTimer (state x) = Some (nextTimer s0)
           \<and> holdIndicator (state x) = None
           \<and> body x = body s0
           \<and> nextElement x = Suc (nextElement s0)
         \<or> timers x = timers s0
           \<and> (holdTimer (state x) = None \<or> holdTimer (state x) = Some (nextTimer s0))
           \<and> (holdIndicator (state x) = None
                \<and> body x = body s0
                \<and> nextElement x = Suc (nextElement s0)
              \<or> holdIndicator (state x) = Some (Suc (nextElement s0))
                \<and> body x = body s0 @ [Suc (nextElement s0)]
                \<and> nextElement x = Suc (Suc (nextElement s0)))))"

text \<open>
  The calls into the host that throw in a run, and a trace in which each of them is
  followed at once by a call of \<^verbatim>\<open>Logger.error\<close>.
\<close>

fun throws :: "Host \<Rightarrow> Hass option \<Rightarrow> effect \<Rightarrow> bool" where
  "throws h hs (Dispatch_more_info eid) = dispatchEvent_throws h"
| "throws h hs (History_pushState path) = pushState_throws h"
| "throws h hs (Hass_callService domain srv sdata) =
     (case hs of None \<Rightarrow> False | Some conn \<Rightarrow> callService_throws conn)"
| "throws h hs (Window_open url) = window_open_throws h"
| "throws h hs Call_toggleExpanded = toggleExpanded_throws h"
| "throws h hs _ = False"

fun caught :: "Host \<Rightarrow> Hass option \<Rightarrow> effect list \<Rightarrow> bool" where
  "caught h hs [] = True"
| "caught h hs [e] = (\<not> throws h hs e)"
| "caught h hs (e # e' # es) =
     ((if throws h hs e then is_error_log e' else True) \<and> caught h hs (e' # es))"

text \<open>The action types \<^verbatim>\<open>handleAction\<close> knows.\<close>

definition known_actions :: "string list" where
  "known_actions = [''more-info'', ''navigate'', ''call-service'', ''url'', ''expand'']"

subsection \<open>A concrete card\<close>

text \<open>
  A card with a more-info tap action and an expand hold action on a host where
  nothing throws, right after \<^verbatim>\<open>setupInteractions\<close>, and pointer events of a
  finger.
\<close>

definition demo_action :: "string \<Rightarrow> ActionConfig" where
  "demo_action name =
     \<lparr>action = Some name, navigation_path = Some ''/lovelace/calendar'',
      service = Some ''light.toggle'', service_data = None, url_path = Some ''example.org''\<rparr>"

definition demo_host :: Host where
  "demo_host =
     \<lparr>dispatchEvent_throws = False, pushState_throws = False, window_open_throws = False,
      window_open_blocked = False, toggleExpanded_throws = False, vibrate_supported = True\<rparr>"

definition demo_card :: Card where
  "demo_card =
     \<lparr>config = \<lparr>tap_action = Some (demo_action ''more-info''),
                hold_action = Some (demo_action ''expand'')\<rparr>,
      hass = None, entityId = ''calendar.family'', host = demo_host\<rparr>"

definition demo_start :: system where
  "demo_start = setupInteractions demo_card True ''interaction_1''"

definition finger :: "int \<Rightarrow> real \<Rightarrow> real \<Rightarrow> PointerEvent" where
  "finger i x y = \<lparr>pointerId = i, pointerType = ''touch'', clientX = x, clientY = y\<rparr>"

text \<open>The same card on a host where every call throws.\<close>

definition throwing_host :: Host where
  "throwing_host =
     \<lparr>dispatchEvent_throws = True, pushState_throws = True, window_open_throws = True,
      window_open_blocked = False, toggleExpanded_throws = True, vibrate_supported = True\<rparr>"

definition throwing_card :: Card where
  "throwing_card = demo_card\<lparr>host := throwing_host\<rparr>"

section \<open>Properties\<close>

subsection \<open>The version banner\<close>

lemma banners_printVersionBanner:
  "banners (printVersionBanner v L) = (if BANNER_SHOWN L then banners L else Suc (banners L))"
  by (simp add: printVersionBanner_def banners_def)

lemma shown_printVersionBanner: "BANNER_SHOWN (printVersionBanner v L)"
  by (simp add: printVersionBanner_def)

lemma logger_step_banner:
  "banners (logger_step c L) =
     (if BANNER_SHOWN L then banners L
      else case c of Call_initializeLogger v d \<Rightarrow> Suc (banners L)
                   | Call_printVersionBanner v \<Rightarrow> Suc (banners L)
                   | _ \<Rightarrow> banners L)"
  by (cases c)
     (simp_all add: initializeLogger_def printVersionBanner_def log_error_def log_warn_def
        log_info_def log_debug_def setLogLevel_def setDebugMode_def banners_def)

lemma logger_step_shown:
  "BANNER_SHOWN (logger_step c L) =
     (case c of Call_initializeLogger v d \<Rightarrow> True
              | Call_printVersionBanner v \<Rightarrow> True
              | _ \<Rightarrow> BANNER_SHOWN L)"
  by (cases c)
     (simp_all add: initializeLogger_def shown_printVersionBanner log_error_def log_warn_def
        log_info_def log_debug_def setLogLevel_def setDebugMode_def)

lemma logger_session_shown:
  "BANNER_SHOWN L \<Longrightarrow> banners (logger_session cs L) = banners L"
proof (induction cs arbitrary: L)
  case Nil
  show ?case by simp
next
  case (Cons c cs)
  have "BANNER_SHOWN (logger_step c L)"
    using Cons.prems by (simp add: logger_step_shown split: logger_call.splits)
  then have "banners (logger_session cs (logger_step c L)) = banners (logger_step c L)"
    by (rule Cons.IH)
  then show ?case using Cons.prems by (simp add: logger_step_banner)
qed

lemma logger_session_at_most_once:
  "banners (logger_session cs L) \<le> (if BANNER_SHOWN L then banners L else Suc (banners L))"
proof (induction cs arbitrary: L)
  case Nil
  show ?case by simp
next
  case (Cons c cs)
  show ?case
  proof (cases "BANNER_SHOWN L")
    case True
    then show ?thesis using logger_session_shown [of L "c # cs"] by simp
  next
    case False
    show ?thesis
    proof (cases "BANNER_SHOWN (logger_step c L)")
      case True
      then have "banners (logger_session cs (logger_step c L)) = banners (logger_step c L)"
        by (rule logger_session_shown)
      then show ?thesis using False
        by (simp add: logger_step_banner split: logger_call.splits)
    next
      case nshown: False
      then have "banners (logger_step c L) = banners L"
        using False by (simp add: logger_step_banner logger_step_shown split: logger_call.splits)
      then show ?thesis using Cons.IH [of "logger_step c L"] nshown False by simp
    qed
  qed
qed

text \<open>
  Claim C9. The banner is printed at most once per session. In a session that starts
  from the freshly loaded module, whatever exported functions are called and in
  whatever order, the console holds at most one banner. The first call of
  \<^verbatim>\<open>printVersionBanner\<close> or \<^verbatim>\<open>initializeLogger\<close> prints it and sets the flag
  \<^verbatim>\<open>BANNER_SHOWN\<close>; once the flag is set, each of the two is a no-op on the
  console, and \<^verbatim>\<open>printVersionBanner\<close> leaves the whole state as it is.
\<close>

theorem C9_banner_once:
  "banners (logger_session cs logger_init) \<le> 1
   \<and> banners (printVersionBanner v logger_init) = 1
   \<and> banners (initializeLogger v d logger_init) = 1
   \<and> BANNER_SHOWN (printVersionBanner v L)
   \<and> BANNER_SHOWN (initializeLogger v d L)
   \<and> printVersionBanner v2 (printVersionBanner v L) = printVersionBanner v L
   \<and> console (initializeLogger v2 d2 (printVersionBanner v L)) = console (printVersionBanner v L)
   \<and> console (printVersionBanner v2 (initializeLogger v d L)) = console (initializeLogger v d L)
   \<and> (BANNER_SHOWN L \<longrightarrow> printVersionBanner v L = L
        \<and> console (initializeLogger v d L) = console L)"
proof -
  have "banners (logger_session cs logger_init) \<le> 1"
    using logger_session_at_most_once [of cs logger_init]
    by (simp add: logger_init_def banners_def)
  moreover have "banners (printVersionBanner v logger_init) = 1"
    by (simp add: banners_printVersionBanner) (simp add: logger_init_def banners_def)
  moreover have "banners (initializeLogger v d logger_init) = 1"
    by (simp add: initializeLogger_def banners_printVersionBanner)
       (simp add: logger_init_def banners_def)
  moreover have "BANNER_SHOWN (initializeLogger v d L)"
    by (simp add: initializeLogger_def shown_printVersionBanner)
  moreover have "printVersionBanner v2 (printVersionBanner v L) = printVersionBanner v L"
    by (simp add: printVersionBanner_def)
  moreover have "console (initializeLogger v2 d2 (printVersionBanner v L))
                   = console (printVersionBanner v L)"
    by (simp add: initializeLogger_def printVersionBanner_def)
  moreover have "console (printVersionBanner v2 (initializeLogger v d L))
                   = console (initializeLogger v d L)"
    by (simp add: initializeLogger_def printVersionBanner_def)
  moreover have "BANNER_SHOWN L \<longrightarrow> printVersionBanner v L = L
                   \<and> console (initializeLogger v d L) = console L"
    by (simp add: initializeLogger_def printVersionBanner_def)
  ultimately show ?thesis
    using shown_printVersionBanner [of v L] by blast
qed

theorem C9_banner_once_witness:
  "banners (logger_session
      [Call_initializeLogger ''3.0.0'' False, Call_info ''x'', Call_setDebugMode True,
       Call_printVersionBanner ''3.0.0'', Call_initializeLogger ''3.0.1'' True] logger_init) = 1
   \<and> BANNER_SHOWN (printVersionBanner ''3.0.0'' logger_init)
   \<and> printVersionBanner ''3.0.1'' (printVersionBanner ''3.0.0'' logger_init)
       = printVersionBanner ''3.0.0'' logger_init
   \<and> console (initializeLogger ''3.0.1'' True (printVersionBanner ''3.0.0'' logger_init))
       = console (printVersionBanner ''3.0.0'' logger_init)"
proof -
  have shown: "BANNER_SHOWN (printVersionBanner ''3.0.0'' logger_init)"
    by (simp add: printVersionBanner_def)
  have pos: "banners (logger_session
      [Call_initializeLogger ''3.0.0'' False, Call_info ''x'', Call_setDebugMode True,
       Call_printVersionBanner ''3.0.0'', Call_initializeLogger ''3.0.1'' True] logger_init) \<ge> 1"
    by (simp add: initializeLogger_def printVersionBanner_def log_info_def setDebugMode_def
          logger_init_def banners_def)
  show ?thesis
    using C9_banner_once [of
        "[Call_initializeLogger ''3.0.0'' False, Call_info ''x'', Call_setDebugMode True,
          Call_printVersionBanner ''3.0.0'', Call_initializeLogger ''3.0.1'' True]"
        "''3.0.0''" False "printVersionBanner ''3.0.0'' logger_init" "''3.0.1''" True]
      C9_banner_once [of "[]" "''3.0.0''" False logger_init "''3.0.1''" True]
      shown pos
    by (simp del: logger_session.simps)
qed

subsection \<open>The primary entity\<close>

text \<open>
  Claim C10. For a non-empty \<^verbatim>\<open>entities\<close> list \<^verbatim>\<open>getPrimaryEntityId\<close> returns
  the identifier of the first element: the element itself when it is a string, its
  \<^verbatim>\<open>entity\<close> field otherwise. For the empty list it returns nothing: the access to
  the first element's \<^verbatim>\<open>entity\<close> field raises. So the call returns a value exactly
  when the list is non-empty.
\<close>

theorem C10_getPrimaryEntityId:
  "getPrimaryEntityId (EntityString s # rest) = Inr s
   \<and> getPrimaryEntityId (EntityObject e c # rest) = Inr e
   \<and> (\<exists>err. getPrimaryEntityId [] = Inl err)
   \<and> ((\<exists>ident. getPrimaryEntityId entities = Inr ident) \<longleftrightarrow> entities \<noteq> [])"
  by (auto simp: getPrimaryEntityId_def split: list.splits EntityConfig.splits)

theorem C10_getPrimaryEntityId_witness:
  "getPrimaryEntityId [EntityString ''calendar.family'', EntityObject ''calendar.work'' None]
     = Inr ''calendar.family''
   \<and> getPrimaryEntityId [EntityObject ''calendar.work'' (Some ''#ff0000'')] = Inr ''calendar.work''
   \<and> (\<exists>err. getPrimaryEntityId [] = Inl err)"
  using C10_getPrimaryEntityId [of "''calendar.family''" "[EntityObject ''calendar.work'' None]"
      "''calendar.work''" "Some ''#ff0000''" "[]"]
    C10_getPrimaryEntityId [of "''calendar.family''" "[]" "''calendar.work''" "Some ''#ff0000''" "[]"]
  by simp

subsection \<open>The movement threshold\<close>

lemma sqrt_gt_10: "(sqrt x > 10) = (x > 100)"
proof -
  have "sqrt 100 = 10" using real_sqrt_abs [of 10] by simp
  then show ?thesis using real_sqrt_less_iff [of 100 x] by simp
qed

lemma sqrt_le_10: "(sqrt x \<le> 10) = (x \<le> 100)"
  using sqrt_gt_10 [of x] by linarith

text \<open>An equation without the square root, for running the model.\<close>

lemma handlePointerMove_code [code]:
  "handlePointerMove g moveEv s =
     (let c = closures s g
      in if activePointerId (state s) \<noteq> Some (pointerId (ev c)) then s
         else (let dx = clientX moveEv - startX c;
                   dy = clientY moveEv - startY c
               in if dx * dx + dy * dy > 100
                  then cancelHoldTimer (s\<lparr>closures := (closures s)(g := c\<lparr>hasMoved := True\<rparr>)\<rparr>)
                  else s))"
  by (simp add: handlePointerMove_def Let_def sqrt_gt_10)

subsection \<open>Completion of the action dispatch\<close>

lemma in_order_returns:
  "list_all (\<lambda>m. snd m = Inr ()) ms \<Longrightarrow> snd (in_order ms) = Inr ()"
  by (induction ms) (auto split: prod.splits sum.splits)

lemma try_catch_returns:
  assumes that: "\<And>e. snd (handler e) = Inr ()"
  shows "snd (try_catch block handler) = Inr ()"
proof (cases block)
  case (Pair tr r)
  show ?thesis
  proof (cases r)
    case (Inl e)
    obtain tr' r' where h: "handler e = (tr', r')" by (cases "handler e")
    with that [of e] have "r' = Inr ()" by simp
    with Pair Inl h show ?thesis by (simp add: try_catch_def)
  next
    case (Inr v)
    with Pair show ?thesis by (simp add: try_catch_def)
  qed
qed

lemma perform_returns: "snd (perform e) = Inr ()"
  by (simp add: perform_def)

lemma handleAction_returns: "snd (handleAction h a hs eid) = Inr ()"
  by (simp add: handleAction_def in_order_returns try_catch_returns perform_returns
        del: in_order.simps split: option.splits)

subsection \<open>Steps of the event loop\<close>

lemma run_append: "run inst (xs @ ys) s = run inst ys (run inst xs s)"
  by (induction xs arbitrary: s) simp_all

lemma absorb_fields:
  "state (absorb tr s) = state s"
  "activeRipples (absorb tr s) = activeRipples s"
  "rippleContainer (absorb tr s) = rippleContainer s"
  "body (absorb tr s) = body s"
  "closures (absorb tr s) = closures s"
  "nextGesture (absorb tr s) = nextGesture s"
  "windowListeners (absorb tr s) = windowListeners s"
  "pointerdownAttached (absorb tr s) = pointerdownAttached s"
  "navigationAttached (absorb tr s) = navigationAttached s"
  "nextElement (absorb tr s) = nextElement s"
  "isConnected (absorb tr s) = isConnected s"
  "dateNow (absorb tr s) = dateNow s"
  "executed (absorb tr s) = executed s"
  by (induction tr arbitrary: s; simp add: navigationListener_def logged_def setTimeout_def)+

text \<open>\<^verbatim>\<open>handleAction\<close> returns, so the assignment after the call always runs.\<close>

lemma executeAction_eq:
  "executeAction inst which s =
     (None, (absorb (fst (handleAction (host inst)
                      (case which of Tap_action \<Rightarrow> tap_action (config inst)
                                   | Hold_action \<Rightarrow> hold_action (config inst))
                      (hass inst) (entityId inst)))
               (s\<lparr>executed := executed s @ [which]\<rparr>))
              \<lparr>state := (state s)\<lparr>lastActionTime := dateNow s\<rparr>\<rparr>)"
proof -
  obtain tr r where h: "handleAction (host inst)
                      (case which of Tap_action \<Rightarrow> tap_action (config inst)
                                   | Hold_action \<Rightarrow> hold_action (config inst))
                      (hass inst) (entityId inst) = (tr, r)"
    by (cases "handleAction (host inst)
                      (case which of Tap_action \<Rightarrow> tap_action (config inst)
                                   | Hold_action \<Rightarrow> hold_action (config inst))
                      (hass inst) (entityId inst)")
  have "snd (tr, r) = Inr ()" unfolding h [symmetric] by (rule handleAction_returns)
  then have r: "r = Inr ()" by simp
  show ?thesis by (simp add: executeAction_def h r absorb_fields)
qed

lemmas handler_defs =
  dispatchWindow_def handlePointerUp_def handlePointerMove_def handlePointerCancel_def
  removeEventListener_def cancelHoldTimer_def clearTimeout_def resolveAction_def
  logged_def cleanUpHoldIndicator_def removeHoldIndicator_def setTimeout_def
  removeRippleEffect_def pointerDownHandler_def createRippleEffect_def
  holdTimerCallback_def createHoldIndicator_def fireTimer_def

lemma fresh_find: "freshHandles s \<Longrightarrow> find (\<lambda>t. fst t = nextTimer s) (timers s) = None"
  by (auto simp: freshHandles_def find_None_iff list_all_iff)

lemma fresh_filter:
  "freshHandles s \<Longrightarrow> filter (\<lambda>t. fst t \<noteq> nextTimer s) (timers s) = timers s"
  by (auto simp: freshHandles_def list_all_iff intro!: filter_True)

subsection \<open>One gesture\<close>

text \<open>A pointer-down with no listener left on \<^verbatim>\<open>window\<close> starts a gesture.\<close>

lemma down_tracking:
  assumes "pointerdownAttached s" "windowListeners s = []"
  shows "tracking (nextGesture s) e (step inst (PointerDown e) s)"
  using assms
  by (simp add: tracking_def handler_defs Let_def split: option.splits)


text \<open>A pointer move during a gesture, and any number of them.\<close>

lemma move_tracking:
  assumes "tracking g e s"
  shows "step inst (PointerMove m) s = (if displacement e m > 10 then markMoved g s else s)"
  using assms
  by (simp add: tracking_def handler_defs displacement_def markMoved_def Let_def)

lemma tracking_markMoved: "tracking g e s \<Longrightarrow> tracking g e (markMoved g s)"
  by (simp add: tracking_def markMoved_def cancelHoldTimer_def clearTimeout_def
        split: option.splits)




subsection \<open>The phases of one gesture\<close>

text \<open>The state right after the pointer-down of a gesture that starts from idle.\<close>

lemma down_idle:
  assumes "idle s"
  shows "tracking (nextGesture s) e (step inst (PointerDown e) s)"
    and "hasMoved (closures (step inst (PointerDown e) s) (nextGesture s)) = False"
    and "ripple (closures (step inst (PointerDown e) s) (nextGesture s)) = nextElement s"
    and "isTouch (closures (step inst (PointerDown e) s) (nextGesture s))
           = (pointerType e = ''touch'')"
    and "state (step inst (PointerDown e) s) =
           (state s)\<lparr>activePointerId := Some (pointerId e),
                     holdTimer := (if configured (hold_action (config inst))
                                   then Some (nextTimer s) else None)\<rparr>"
    and "timers (step inst (PointerDown e) s) =
           timers s @ (if configured (hold_action (config inst))
                       then [(nextTimer s, 500, Hold_elapsed (nextGesture s))] else [])"
    and "executed (step inst (PointerDown e) s) = executed s"
    and "body (step inst (PointerDown e) s) = body s"
    and "activeRipples (step inst (PointerDown e) s) = activeRipples s @ [nextElement s]"
    and "rippleContainer (step inst (PointerDown e) s) = rippleContainer s @ [nextElement s]"
    and "nextElement (step inst (PointerDown e) s) = Suc (nextElement s)"
proof -
  have a: "pointerdownAttached s" and l: "windowListeners s = []"
    and st: "state s = (createFreshState (instanceId (state s)))
                         \<lparr>lastActionTime := lastActionTime (state s)\<rparr>"
    using assms by (simp_all add: idle_def)
  have h: "holdTimer (state s) = None" and p: "pendingHoldAction (state s) = False"
    and t: "holdTriggered (state s) = False"
    by (subst st, simp add: createFreshState_def)+
  show "tracking (nextGesture s) e (step inst (PointerDown e) s)"
    using a l by (rule down_tracking)
  show "hasMoved (closures (step inst (PointerDown e) s) (nextGesture s)) = False"
    using a by (simp add: handler_defs Let_def split: option.splits)
  show "ripple (closures (step inst (PointerDown e) s) (nextGesture s)) = nextElement s"
    using a by (simp add: handler_defs Let_def split: option.splits)
  show "isTouch (closures (step inst (PointerDown e) s) (nextGesture s))
           = (pointerType e = ''touch'')"
    using a by (simp add: handler_defs Let_def split: option.splits)
  show "state (step inst (PointerDown e) s) =
           (state s)\<lparr>activePointerId := Some (pointerId e),
                     holdTimer := (if configured (hold_action (config inst))
                                   then Some (nextTimer s) else None)\<rparr>"
    using a h p t by (simp add: handler_defs Let_def)
  show "timers (step inst (PointerDown e) s) =
           timers s @ (if configured (hold_action (config inst))
                       then [(nextTimer s, 500, Hold_elapsed (nextGesture s))] else [])"
    using a h by (simp add: handler_defs Let_def)
  show "executed (step inst (PointerDown e) s) = executed s"
    using a h by (simp add: handler_defs Let_def)
  show "body (step inst (PointerDown e) s) = body s"
    using a h by (simp add: handler_defs Let_def)
  show "activeRipples (step inst (PointerDown e) s) = activeRipples s @ [nextElement s]"
    using a h by (simp add: handler_defs Let_def)
  show "rippleContainer (step inst (PointerDown e) s) = rippleContainer s @ [nextElement s]"
    using a h by (simp add: handler_defs Let_def)
  show "nextElement (step inst (PointerDown e) s) = Suc (nextElement s)"
    using a h by (simp add: handler_defs Let_def)
qed

lemma idle_state:
  assumes "idle s"
  shows "holdTimer (state s) = None" and "holdTriggered (state s) = False"
    and "pendingHoldAction (state s) = False" and "holdIndicator (state s) = None"
    and "activePointerId (state s) = None"
proof -
  have st: "state s = (createFreshState (instanceId (state s)))
                         \<lparr>lastActionTime := lastActionTime (state s)\<rparr>"
    using assms by (simp add: idle_def)
  show "holdTimer (state s) = None" and "holdTriggered (state s) = False"
    and "pendingHoldAction (state s) = False" and "holdIndicator (state s) = None"
    and "activePointerId (state s) = None"
    by (subst st, simp add: createFreshState_def)+
qed

text \<open>
  The hold timer of the gesture runs out while the pointer is down: the hold is marked
  as pending and the indicator is shown; nothing is executed.
\<close>

lemma hold_elapsed:
  assumes "tracking g e s" and "list_all (\<lambda>t. fst t \<noteq> h) old"
    and "timers s = old @ [(h, 500, Hold_elapsed g)]"
  shows "tracking g e (step inst (TimerFires h) s)"
    and "state (step inst (TimerFires h) s) =
           (state s)\<lparr>holdTriggered := True, pendingHoldAction := True,
                     holdIndicator := Some (nextElement s)\<rparr>"
    and "closures (step inst (TimerFires h) s) = closures s"
    and "executed (step inst (TimerFires h) s) = executed s"
    and "timers (step inst (TimerFires h) s) = old"
    and "body (step inst (TimerFires h) s) = body s @ [nextElement s]"
    and "activeRipples (step inst (TimerFires h) s) = activeRipples s"
    and "rippleContainer (step inst (TimerFires h) s) = rippleContainer s"
proof -
  have f: "find (\<lambda>t. fst t = h) (old @ [(h, 500, Hold_elapsed g)]) = Some (h, 500, Hold_elapsed g)"
    using assms(2) by (induction old) auto
  have k: "filter (\<lambda>t. fst t \<noteq> h) (old @ [(h, 500, Hold_elapsed g)]) = old"
    using assms(2) by (induction old) auto
  show "tracking g e (step inst (TimerFires h) s)"
    using assms(1,3) f k by (simp add: tracking_def handler_defs Let_def)
  show "state (step inst (TimerFires h) s) =
           (state s)\<lparr>holdTriggered := True, pendingHoldAction := True,
                     holdIndicator := Some (nextElement s)\<rparr>"
    using assms(1,3) f k by (simp add: tracking_def handler_defs Let_def)
  show "closures (step inst (TimerFires h) s) = closures s"
    using assms(1,3) f k by (simp add: tracking_def handler_defs Let_def)
  show "executed (step inst (TimerFires h) s) = executed s"
    using assms(1,3) f k by (simp add: tracking_def handler_defs Let_def)
  show "timers (step inst (TimerFires h) s) = old"
    using assms(1,3) f k by (simp add: tracking_def handler_defs Let_def)
  show "body (step inst (TimerFires h) s) = body s @ [nextElement s]"
    using assms(1,3) f k by (simp add: tracking_def handler_defs Let_def)
  show "activeRipples (step inst (TimerFires h) s) = activeRipples s"
    using assms(1,3) f k by (simp add: tracking_def handler_defs Let_def)
  show "rippleContainer (step inst (TimerFires h) s) = rippleContainer s"
    using assms(1,3) f k by (simp add: tracking_def handler_defs Let_def)
qed

text \<open>What \<open>markMoved\<close> changes and what it leaves.\<close>

lemma markMoved_fields:
  "holdTimer (state (markMoved g s)) = None"
  "timers (markMoved g s) = filter (\<lambda>t. Some (fst t) \<noteq> holdTimer (state s)) (timers s)"
  "hasMoved (closures (markMoved g s) g) = True"
  "pendingHoldAction (state (markMoved g s)) = pendingHoldAction (state s)"
  "holdTriggered (state (markMoved g s)) = holdTriggered (state s)"
  "holdIndicator (state (markMoved g s)) = holdIndicator (state s)"
  "activePointerId (state (markMoved g s)) = activePointerId (state s)"
  "executed (markMoved g s) = executed s"
  "body (markMoved g s) = body s"
  "activeRipples (markMoved g s) = activeRipples s"
  "rippleContainer (markMoved g s) = rippleContainer s"
  "ripple (closures (markMoved g s) g) = ripple (closures s g)"
  "nextTimer (markMoved g s) = nextTimer s"
  "nextElement (markMoved g s) = nextElement s"
  by (simp_all add: markMoved_def cancelHoldTimer_def clearTimeout_def split: option.splits)


lemma find_fresh_append:
  "list_all (\<lambda>t. fst t \<noteq> h) old \<Longrightarrow> find (\<lambda>t. fst t = h) (old @ [(h, d, cb)]) = Some (h, d, cb)"
  by (induction old) auto

lemma not_pending_fire:
  assumes "\<not> isPending h x"
  shows "step inst (TimerFires h) x = x"
proof -
  have "find (\<lambda>t. fst t = h) (timers x) = None"
    using assms by (auto simp: isPending_def find_None_iff list_ex_iff)
  then show ?thesis by (simp add: fireTimer_def)
qed

subsection \<open>The states of a gesture\<close>

lemma inGesture_down:
  assumes "idle s"
  shows "inGesture inst s e (step inst (PointerDown e) s)"
proof -
  note d = down_idle [OF assms, where inst = inst and e = e]
  note i = idle_state [OF assms]
  have a: "pointerdownAttached s" using assms by (simp add: idle_def)
  have p: "pointerdownAttached (step inst (PointerDown e) s)"
    and n: "nextTimer (step inst (PointerDown e) s)
              = (if configured (hold_action (config inst))
                 then Suc (nextTimer s) else nextTimer s)"
    using a i(1) by (simp_all add: handler_defs Let_def)
  show ?thesis
    unfolding inGesture_def using d i p n by (simp del: step.simps)
qed

lemma inGesture_move:
  assumes "idle s" and "inGesture inst s e x"
  shows "inGesture inst s e (step inst (PointerMove m) x)"
proof (cases "displacement e m > 10")
  case False
  then show ?thesis
    using assms(2) move_tracking [where inst = inst and g = "nextGesture s" and e = e and s = x and m = m]
    by (simp add: inGesture_def del: step.simps)
next
  case True
  have fh: "freshHandles s" using assms(1) by (simp add: idle_def)
  have k: "filter (\<lambda>t. Some (fst t) \<noteq> Some (nextTimer s)) (timers s) = timers s"
    using fresh_filter [OF fh] by simp
  have tr: "tracking (nextGesture s) e x" using assms(2) by (simp add: inGesture_def)
  have eq: "step inst (PointerMove m) x = markMoved (nextGesture s) x"
    using True move_tracking [OF tr, where inst = inst and m = m] by simp
  have st: "instanceId (state (markMoved (nextGesture s) x)) = instanceId (state x)"
      "lastActionTime (state (markMoved (nextGesture s) x)) = lastActionTime (state x)"
      "pointerdownAttached (markMoved (nextGesture s) x) = pointerdownAttached x"
    by (simp_all add: markMoved_def cancelHoldTimer_def clearTimeout_def split: option.splits)
  show ?thesis
    unfolding eq inGesture_def
    using assms(2) tracking_markMoved [OF tr] k st
    by (auto simp: inGesture_def markMoved_fields)
qed

lemma inGesture_timer:
  assumes "idle s" and "inGesture inst s e x"
  shows "inGesture inst s e (step inst (TimerFires (nextTimer s)) x)"
proof (cases "timers x = timers s")
  case True
  have "\<not> isPending (nextTimer s) x"
    using assms(1) True by (auto simp: idle_def freshHandles_def isPending_def list_all_iff list_ex_iff)
  then have "step inst (TimerFires (nextTimer s)) x = x" by (rule not_pending_fire)
  then show ?thesis using assms(2) by simp
next
  case False
  then have tm: "timers x = timers s @ [(nextTimer s, 500, Hold_elapsed (nextGesture s))]"
    and rest: "holdTimer (state x) = Some (nextTimer s)" "holdIndicator (state x) = None"
      "body x = body s" "nextElement x = Suc (nextElement s)"
    using assms(2) by (auto simp: inGesture_def)
  have tr: "tracking (nextGesture s) e x" using assms(2) by (simp add: inGesture_def)
  have old: "list_all (\<lambda>t. fst t \<noteq> nextTimer s) (timers s)"
    using assms(1) by (auto simp: idle_def freshHandles_def list_all_iff)
  note f = hold_elapsed [OF tr old tm, where inst = inst]
  have f': "find (\<lambda>t. fst t = nextTimer s) (timers x) = Some (nextTimer s, 500, Hold_elapsed (nextGesture s))"
    unfolding tm using old by (rule find_fresh_append)
  have more: "pointerdownAttached (step inst (TimerFires (nextTimer s)) x) = pointerdownAttached x"
    "nextTimer (step inst (TimerFires (nextTimer s)) x) = nextTimer x"
    "nextElement (step inst (TimerFires (nextTimer s)) x) = Suc (nextElement x)"
    using tr f' by (simp_all add: tracking_def handler_defs Let_def)
  show ?thesis
    unfolding inGesture_def
    using assms(2) f more rest
    by (simp add: inGesture_def del: step.simps)
qed

lemma inGesture_run:
  assumes "idle s" and "inGesture inst s e x" and "list_all (during_gesture (nextTimer s)) mid"
  shows "inGesture inst s e (run inst mid x)"
  using assms(2,3)
proof (induction mid arbitrary: x)
  case Nil
  then show ?case by simp
next
  case (Cons a mid)
  have d: "during_gesture (nextTimer s) a" and r: "list_all (during_gesture (nextTimer s)) mid"
    using Cons.prems(2) by simp_all
  have "inGesture inst s e (step inst a x)"
  proof (cases a)
    case (PointerMove m)
    then show ?thesis using inGesture_move [OF assms(1) Cons.prems(1)] by simp
  next
    case (TimerFires h)
    then have "h = nextTimer s" using d by simp
    then show ?thesis using TimerFires inGesture_timer [OF assms(1) Cons.prems(1)] by simp
  qed (use d in simp_all)
  then have "inGesture inst s e (run inst mid (step inst a x))" using r by (rule Cons.IH)
  then show ?case by simp
qed

lemma remove1_fresh_snoc: "x \<notin> set xs \<Longrightarrow> remove1 x (xs @ [x]) = xs"
  by (induction xs) auto

lemma cancel_inGesture:
  assumes "idle s" and "inGesture inst s e x"
  shows "state (step inst PointerCancel x) = state s"
    and "\<not> holdPending (step inst PointerCancel x)"
    and "executed (step inst PointerCancel x) = executed s"
    and "windowListeners (step inst PointerCancel x) = []"
    and "activeRipples (step inst PointerCancel x) = activeRipples s"
    and "scheduled (Ripple_fade (nextElement s)) (step inst PointerCancel x)"
    and "body (step inst PointerCancel x) = body s
         \<or> body (step inst PointerCancel x) = body s @ [Suc (nextElement s)]
           \<and> scheduled (Indicator_detach (Suc (nextElement s))) (step inst PointerCancel x)"
    and "idle (step inst PointerCancel x)"
    and "rippleContainer (step inst PointerCancel x) = rippleContainer s @ [nextElement s]"
proof -
  note i = idle_state [OF assms(1)]
  have np: "\<not> holdPending s" and fh: "freshHandles s" and fe: "freshElements s"
    using assms(1) by (simp_all add: idle_def)
  have k: "filter (\<lambda>t. fst t \<noteq> nextTimer s) (timers s) = timers s"
    using fresh_filter [OF fh] by simp
  have r: "nextElement s \<notin> set (activeRipples s)"
    using fe by (auto simp: freshElements_def list_all_iff)
  have rm: "remove1 (nextElement s) (activeRipples s @ [nextElement s]) = activeRipples s"
    using r by (rule remove1_fresh_snoc)
  have st: "state s = \<lparr>instanceId = instanceId (state s), holdTimer = None,
              holdTriggered = False, holdIndicator = None, activePointerId = None,
              lastActionTime = lastActionTime (state s), pendingHoldAction = False\<rparr>"
    using assms(1) by (simp add: idle_def createFreshState_def)
  have sx: "instanceId (state x) = instanceId (state s)"
      "lastActionTime (state x) = lastActionTime (state s)"
    using assms(2) by (simp_all add: inGesture_def)
  have ls: "windowListeners x = [On_pointermove (nextGesture s), On_pointerup (nextGesture s),
              On_pointercancel (nextGesture s)]"
    and rp: "ripple (closures x (nextGesture s)) = nextElement s"
    and ar: "activeRipples x = activeRipples s @ [nextElement s]"
    and rc: "rippleContainer x = rippleContainer s @ [nextElement s]"
    and ex: "executed x = executed s"
    using assms(2) by (simp_all add: inGesture_def tracking_def)
  have ph: "timers x = timers s @ [(nextTimer s, 500, Hold_elapsed (nextGesture s))]
           \<and> holdTimer (state x) = Some (nextTimer s)
           \<and> holdIndicator (state x) = None
           \<and> body x = body s
           \<and> nextElement x = Suc (nextElement s)
         \<or> timers x = timers s
           \<and> (holdTimer (state x) = None \<or> holdTimer (state x) = Some (nextTimer s))
           \<and> (holdIndicator (state x) = None
                \<and> body x = body s
                \<and> nextElement x = Suc (nextElement s)
              \<or> holdIndicator (state x) = Some (Suc (nextElement s))
                \<and> body x = body s @ [Suc (nextElement s)]
                \<and> nextElement x = Suc (Suc (nextElement s)))"
    using assms(2) by (auto simp: inGesture_def)
  have nt: "nextTimer s \<le> nextTimer x"
    using assms(2) by (simp add: inGesture_def split: if_splits)
  have pa: "pointerdownAttached x" using assms(2) by (simp add: inGesture_def)
  have lt: "\<And>y. y \<in> set (activeRipples s) \<Longrightarrow> y < Suc (nextElement s)"
      "\<And>y. y \<in> set (rippleContainer s) \<Longrightarrow> y < Suc (nextElement s)"
      "\<And>y. y \<in> set (body s) \<Longrightarrow> y < Suc (nextElement s)"
      "\<And>y. y \<in> set (activeRipples s) \<Longrightarrow> y < Suc (Suc (nextElement s))"
      "\<And>y. y \<in> set (rippleContainer s) \<Longrightarrow> y < Suc (Suc (nextElement s))"
      "\<And>y. y \<in> set (body s) \<Longrightarrow> y < Suc (Suc (nextElement s))"
    using fe by (auto simp: freshElements_def list_all_iff intro: less_SucI)
  have lh: "\<And>a b c. (a, b, c) \<in> set (timers s) \<Longrightarrow> a < Suc (nextTimer x)"
      "\<And>a b c. (a, b, c) \<in> set (timers s) \<Longrightarrow> a < Suc (Suc (nextTimer x))"
      "\<And>a b c. (a, b, c) \<in> set (timers s) \<Longrightarrow> a < nextTimer x"
    using fh nt by (auto simp: freshHandles_def list_all_iff)
  have all: "(holdTimer (state (step inst PointerCancel x)) = None
         \<and> activePointerId (state (step inst PointerCancel x)) = None
         \<and> holdIndicator (state (step inst PointerCancel x)) = None
         \<and> \<not> holdTriggered (state (step inst PointerCancel x))
         \<and> \<not> pendingHoldAction (state (step inst PointerCancel x))
         \<and> instanceId (state (step inst PointerCancel x)) = instanceId (state x)
         \<and> lastActionTime (state (step inst PointerCancel x)) = lastActionTime (state x))
    \<and> \<not> holdPending (step inst PointerCancel x)
    \<and> executed (step inst PointerCancel x) = executed s
    \<and> windowListeners (step inst PointerCancel x) = []
    \<and> activeRipples (step inst PointerCancel x) = activeRipples s
    \<and> scheduled (Ripple_fade (nextElement s)) (step inst PointerCancel x)
    \<and> (body (step inst PointerCancel x) = body s
         \<or> body (step inst PointerCancel x) = body s @ [Suc (nextElement s)]
           \<and> scheduled (Indicator_detach (Suc (nextElement s))) (step inst PointerCancel x))
    \<and> pointerdownAttached (step inst PointerCancel x)
    \<and> freshHandles (step inst PointerCancel x)
    \<and> freshElements (step inst PointerCancel x)
    \<and> rippleContainer (step inst PointerCancel x) = rippleContainer s @ [nextElement s]"
  proof (cases "timers x = timers s")
    case False
    then have live: "timers x = timers s @ [(nextTimer s, 500, Hold_elapsed (nextGesture s))]"
        "holdTimer (state x) = Some (nextTimer s)" "holdIndicator (state x) = None"
        "body x = body s" "nextElement x = Suc (nextElement s)"
      using ph by auto
    show ?thesis
      using live ls rp ar rc ex np k rm pa nt fh fe
      apply (simp add: handler_defs Let_def holdPending_def scheduled_def freshHandles_def
               freshElements_def list_all_iff)
      apply (auto simp add: sx intro: lt lh)
      done
  next
    case True
    then have hT: "holdTimer (state x) = None \<or> holdTimer (state x) = Some (nextTimer s)"
      using ph by auto
    show ?thesis
    proof (cases "holdIndicator (state x)")
      case None
      then have none: "body x = body s" "nextElement x = Suc (nextElement s)"
        using ph by auto
      show ?thesis
        using True hT None none ls rp ar rc ex np k rm pa nt fh fe
        apply (simp add: handler_defs Let_def holdPending_def scheduled_def freshHandles_def
                 freshElements_def list_all_iff split: option.splits)
        apply (auto simp add: sx intro: lt lh)
        done
    next
      case (Some i)
      then have held: "holdIndicator (state x) = Some (Suc (nextElement s))"
          "body x = body s @ [Suc (nextElement s)]" "nextElement x = Suc (Suc (nextElement s))"
        using ph True by auto
      show ?thesis
        using True hT held ls rp ar rc ex np k rm pa nt fh fe
        apply (simp add: handler_defs Let_def holdPending_def scheduled_def freshHandles_def
                 freshElements_def list_all_iff split: option.splits)
        apply (auto simp add: sx intro: lt lh)
        done
    qed
  qed
  have "state (step inst PointerCancel x) =
          \<lparr>instanceId = instanceId (state s), holdTimer = None,
              holdTriggered = False, holdIndicator = None, activePointerId = None,
              lastActionTime = lastActionTime (state s), pendingHoldAction = False\<rparr>"
    using all sx by (intro InteractionState.equality) (simp_all del: step.simps)
  then show "state (step inst PointerCancel x) = state s" using st by simp
  show "\<not> holdPending (step inst PointerCancel x)"
    and "executed (step inst PointerCancel x) = executed s"
    and "windowListeners (step inst PointerCancel x) = []"
    and "activeRipples (step inst PointerCancel x) = activeRipples s"
    and "scheduled (Ripple_fade (nextElement s)) (step inst PointerCancel x)"
    and "body (step inst PointerCancel x) = body s
         \<or> body (step inst PointerCancel x) = body s @ [Suc (nextElement s)]
           \<and> scheduled (Indicator_detach (Suc (nextElement s))) (step inst PointerCancel x)"
    using all by blast+
  show "idle (step inst PointerCancel x)"
    unfolding idle_def
    using all assms(1) \<open>state (step inst PointerCancel x) = state s\<close>
    by (simp add: idle_def del: step.simps)
  show "rippleContainer (step inst PointerCancel x) = rippleContainer s @ [nextElement s]"
    using all by blast
qed

subsection \<open>Dispatch and cleanup\<close>

lemma resolveAction_fields:
  "fst (resolveAction inst g s) = None"
  "activePointerId (state (snd (resolveAction inst g s))) = activePointerId (state s)"
  "holdTimer (state (snd (resolveAction inst g s))) = holdTimer (state s)"
  "holdIndicator (state (snd (resolveAction inst g s))) = holdIndicator (state s)"
  "body (snd (resolveAction inst g s)) = body s"
  "windowListeners (snd (resolveAction inst g s)) = windowListeners s"
  by (simp_all add: resolveAction_def executeAction_eq absorb_fields logged_def)

text \<open>The up handler of the tracked pointer, with the dispatch of the action set apart.\<close>

lemma handlePointerUp_eq:
  assumes "activePointerId (state s) = Some (pointerId (ev (closures s g)))"
  shows "handlePointerUp inst g u s =
          (let s3 = (cancelHoldTimer (removeEventListener (On_pointermove g) s))
                      \<lparr>state := (state (cancelHoldTimer (removeEventListener (On_pointermove g) s)))
                                   \<lparr>activePointerId := None\<rparr>\<rparr>;
               s4 = snd (resolveAction inst g s3);
               s5 = cleanUpHoldIndicator s4
           in removeEventListener (On_pointercancel g)
                (removeEventListener (On_pointerup g)
                   (setTimeout (Ripple_release g) 100
                      (s5\<lparr>state := (state s5)\<lparr>holdTriggered := False,
                                                 pendingHoldAction := False\<rparr>\<rparr>))))"
proof -
  let ?s3 = "(cancelHoldTimer (removeEventListener (On_pointermove g) s))
               \<lparr>state := (state (cancelHoldTimer (removeEventListener (On_pointermove g) s)))
                            \<lparr>activePointerId := None\<rparr>\<rparr>"
  obtain r s4 where rs: "resolveAction inst g ?s3 = (r, s4)"
    by (cases "resolveAction inst g ?s3")
  have "r = None" using resolveAction_fields(1) [of inst g ?s3] rs by simp
  then show ?thesis
    using assms rs by (simp add: handlePointerUp_def removeEventListener_def Let_def)
qed

lemma up_cleanup:
  assumes "activePointerId (state s) = Some (pointerId (ev (closures s g)))"
  shows "activePointerId (state (handlePointerUp inst g u s)) = None
    \<and> \<not> holdTriggered (state (handlePointerUp inst g u s))
    \<and> \<not> pendingHoldAction (state (handlePointerUp inst g u s))
    \<and> holdTimer (state (handlePointerUp inst g u s)) = None
    \<and> holdIndicator (state (handlePointerUp inst g u s)) =
           (case holdIndicator (state s) of
              None \<Rightarrow> None
            | Some i \<Rightarrow> if i \<in> set (body s) then None else Some i)
    \<and> scheduled (Ripple_release g) (handlePointerUp inst g u s)
    \<and> windowListeners (handlePointerUp inst g u s) =
           remove1 (On_pointercancel g) (remove1 (On_pointerup g)
             (remove1 (On_pointermove g) (windowListeners s)))"
proof -
  let ?s3 = "(cancelHoldTimer (removeEventListener (On_pointermove g) s))
               \<lparr>state := (state (cancelHoldTimer (removeEventListener (On_pointermove g) s)))
                            \<lparr>activePointerId := None\<rparr>\<rparr>"
  note f = resolveAction_fields [of inst g ?s3]
  have s3: "activePointerId (state ?s3) = None" "holdTimer (state ?s3) = None"
      "holdIndicator (state ?s3) = holdIndicator (state s)" "body ?s3 = body s"
      "windowListeners ?s3 = remove1 (On_pointermove g) (windowListeners s)"
    by (simp_all add: cancelHoldTimer_def clearTimeout_def removeEventListener_def
          split: option.splits)
  show ?thesis
    unfolding handlePointerUp_eq [OF assms] Let_def
    using f s3
    by (simp add: removeEventListener_def setTimeout_def cleanUpHoldIndicator_def
          removeHoldIndicator_def scheduled_def Let_def split: option.splits)
qed

lemma caught_Cons:
  "\<not> throws h hs e \<Longrightarrow> caught h hs (e # es) = caught h hs es"
  by (cases es) simp_all

lemma fireMoreInfo_caught:
  "snd (fireMoreInfo h eid) = Inr () \<and> caught h hs (fst (fireMoreInfo h eid))"
  by (simp add: fireMoreInfo_def try_catch_def perform_def host_call_def)

lemma handleNavigation_caught:
  "snd (handleNavigation h cfg) = Inr () \<and> caught h hs (fst (handleNavigation h cfg))"
  by (simp add: handleNavigation_def try_catch_def perform_def host_call_def
        split: option.splits)

lemma callService_caught:
  "snd (callService conn cfg) = Inr () \<and> caught h (Some conn) (fst (callService conn cfg))"
  by (simp add: callService_def try_catch_def perform_def host_call_def
        split: option.splits list.splits)

lemma openUrl_caught:
  "snd (openUrl h cfg) = Inr () \<and> caught h hs (fst (openUrl h cfg))"
  by (simp add: openUrl_def try_catch_def perform_def host_call_def
        split: option.splits)

lemma try_catch_ok:
  assumes "snd block = Inr ()"
  shows "try_catch block handler = block"
  using assms by (cases block) (simp add: try_catch_def)

lemma in_order_info:
  assumes "snd block = Inr ()"
  shows "in_order [perform (Logger_info msg), block] = (Logger_info msg # fst block, Inr ())"
  using assms by (cases block) (simp add: perform_def)

lemma dispatch_caught:
  assumes "snd block = Inr ()" "caught h hs (fst block)"
  shows "caught h hs (fst (in_order [perform (Logger_info msg), try_catch block handler]))"
  using assms by (simp add: try_catch_ok in_order_info caught_Cons del: in_order.simps)

lemma handleAction_caught: "caught h hs (fst (handleAction h a hs eid))"
proof (cases a)
  case None
  then show ?thesis by (simp add: handleAction_def perform_def)
next
  case (Some cfg)
  show ?thesis
  proof (cases "action cfg")
    case None
    with Some show ?thesis by (simp add: handleAction_def perform_def)
  next
    case (Some name)
    note nm = this
    note dispatch = dispatch_caught
    consider (noop) "name = [] \<or> name = ''none''"
      | (info) "name = ''more-info''" | (nav) "name = ''navigate''"
      | (svc) "name = ''call-service''" | (url) "name = ''url''" | (expand) "name = ''expand''"
      | (unknown) "name \<noteq> []" "name \<noteq> ''none''" "name \<noteq> ''more-info''" "name \<noteq> ''navigate''"
          "name \<noteq> ''call-service''" "name \<noteq> ''url''" "name \<noteq> ''expand''"
      by blast
    then show ?thesis
    proof cases
      case noop
      then show ?thesis using \<open>a = Some cfg\<close> nm by (auto simp: handleAction_def perform_def)
    next
      case info
      show ?thesis
        using \<open>a = Some cfg\<close> nm info fireMoreInfo_caught [of h eid hs]
        by (simp add: handleAction_def dispatch del: in_order.simps)
    next
      case nav
      show ?thesis
        using \<open>a = Some cfg\<close> nm nav handleNavigation_caught [of h cfg hs]
        by (simp add: handleAction_def dispatch del: in_order.simps)
    next
      case svc
      show ?thesis
      proof (cases hs)
        case None
        then show ?thesis
          using \<open>a = Some cfg\<close> nm svc
          by (simp add: handleAction_def try_catch_def perform_def)
      next
        case (Some conn)
        then show ?thesis
          using \<open>a = Some cfg\<close> nm svc callService_caught [of conn cfg h]
          by (simp add: handleAction_def dispatch del: in_order.simps)
      qed
    next
      case url
      show ?thesis
        using \<open>a = Some cfg\<close> nm url openUrl_caught [of h cfg hs]
        by (simp add: handleAction_def dispatch del: in_order.simps)
    next
      case expand
      show ?thesis
        using \<open>a = Some cfg\<close> nm expand
        by (simp add: handleAction_def try_catch_def perform_def host_call_def)
    next
      case unknown
      then show ?thesis
        using \<open>a = Some cfg\<close> nm
        by (simp add: handleAction_def try_catch_def perform_def)
    qed
  qed
qed

lemma handleAction_none:
  "list_all is_logging (fst (handleAction h None hs eid))"
  by (simp add: handleAction_def perform_def)

lemma handleAction_noop:
  assumes "case action cfg of None \<Rightarrow> True
           | Some name \<Rightarrow> name = [] \<or> name = ''none'' \<or> name \<notin> set known_actions"
  shows "list_all is_logging (fst (handleAction h (Some cfg) hs eid))"
proof (cases "action cfg")
  case None
  then show ?thesis by (simp add: handleAction_def perform_def)
next
  case (Some name)
  show ?thesis
  proof (cases "name = [] \<or> name = ''none''")
    case True
    then show ?thesis using Some by (auto simp: handleAction_def perform_def)
  next
    case False
    then have "name \<noteq> ''more-info''" "name \<noteq> ''navigate''" "name \<noteq> ''call-service''"
        "name \<noteq> ''url''" "name \<noteq> ''expand''"
      using assms Some by (auto simp: known_actions_def)
    then show ?thesis
      using Some False by (simp add: handleAction_def try_catch_def perform_def)
  qed
qed

text \<open>With no active pointer every up handler returns at its guard.\<close>

lemma fold_up_inactive:
  assumes "activePointerId (state x) = None"
  shows "executed (fold (\<lambda>l s'. if l \<in> set (windowListeners s')
                                   then deliver inst (PointerUp u) l s' else s') ls x)
           = executed x
         \<and> state (fold (\<lambda>l s'. if l \<in> set (windowListeners s')
                                   then deliver inst (PointerUp u) l s' else s') ls x)
           = state x"
  using assms
proof (induction ls arbitrary: x)
  case Nil
  show ?case by simp
next
  case (Cons l ls)
  let ?y = "if l \<in> set (windowListeners x) then deliver inst (PointerUp u) l x else x"
  have y: "executed ?y = executed x \<and> state ?y = state x"
    using Cons.prems
    by (cases l) (simp_all add: handlePointerUp_def removeEventListener_def Let_def)
  then have "activePointerId (state ?y) = None" using Cons.prems by simp
  from Cons.IH [OF this] y show ?case by simp
qed

lemma up_inactive:
  assumes "activePointerId (state x) = None"
  shows "executed (step inst (PointerUp u) x) = executed x"
  using fold_up_inactive [OF assms, where inst = inst and u = u and ls = "windowListeners x"]
  by (simp add: dispatchWindow_def)

subsection \<open>Idle again after a gesture\<close>








text \<open>The callbacks that take a ripple and an indicator out of the document.\<close>

lemma find_holds: "find P xs = Some x \<Longrightarrow> P x"
  by (induction xs) (auto split: if_splits)

lemma fireCallback_scheduled:
  assumes "scheduled cb y"
  shows "\<exists>h. fireCallback inst cb y = runCallback inst cb (clearTimeout h y)"
proof -
  obtain t where t: "find (\<lambda>t. snd (snd t) = cb) (timers y) = Some t"
    using assms by (cases "find (\<lambda>t. snd (snd t) = cb) (timers y)")
      (auto simp: scheduled_def find_None_iff list_ex_iff)
  obtain h d c where hdc: "t = (h, d, c)" by (cases t)
  have "c = cb" using find_holds [OF t] hdc by simp
  then have "fireCallback inst cb y = runCallback inst cb (clearTimeout h y)"
    using t hdc by (simp add: fireCallback_def)
  then show ?thesis ..
qed

lemma fireCallback_not_scheduled:
  assumes "\<not> scheduled cb y"
  shows "fireCallback inst cb y = y"
proof -
  have "find (\<lambda>t. snd (snd t) = cb) (timers y) = None"
    using assms by (auto simp: scheduled_def find_None_iff list_ex_iff)
  then show ?thesis by (simp add: fireCallback_def)
qed

lemma ripple_detached:
  assumes "scheduled (Ripple_fade r) y"
  shows "rippleContainer (fireCallback inst (Ripple_detach r) (fireCallback inst (Ripple_fade r) y))
           = remove1 r (rippleContainer y)"
proof -
  obtain h where h: "fireCallback inst (Ripple_fade r) y
                       = runCallback inst (Ripple_fade r) (clearTimeout h y)"
    using fireCallback_scheduled [OF assms] by blast
  let ?y1 = "fireCallback inst (Ripple_fade r) y"
  have c1: "rippleContainer ?y1 = rippleContainer y" and s1: "scheduled (Ripple_detach r) ?y1"
    unfolding h by (simp_all add: setTimeout_def clearTimeout_def scheduled_def)
  obtain h' where h': "fireCallback inst (Ripple_detach r) ?y1
                         = runCallback inst (Ripple_detach r) (clearTimeout h' ?y1)"
    using fireCallback_scheduled [OF s1] by blast
  show ?thesis unfolding h' using c1 by (simp add: clearTimeout_def)
qed

lemma indicator_detached:
  "body (fireCallback inst (Indicator_detach i) y)
     = (if scheduled (Indicator_detach i) y then remove1 i (body y) else body y)"
proof (cases "scheduled (Indicator_detach i) y")
  case True
  obtain h where "fireCallback inst (Indicator_detach i) y
                    = runCallback inst (Indicator_detach i) (clearTimeout h y)"
    using fireCallback_scheduled [OF True] by blast
  then show ?thesis using True by (simp add: clearTimeout_def)
next
  case False
  then show ?thesis by (simp add: fireCallback_not_scheduled)
qed

subsection \<open>The concrete card\<close>

lemma demo_idle: "idle demo_start"
  by (simp add: idle_def demo_start_def setupInteractions_def demo_card_def demo_action_def
        configured_def createFreshState_def holdPending_def freshHandles_def freshElements_def)




text \<open>
  Claim C4, as it is stated, fails: the hold is pending, the pointer moves 30 units
  away, and the pointer-up does not execute the hold action.
\<close>

lemmas run_defs =
  handler_defs executeAction_eq absorb_fields Let_def configured_def
  setupInteractions_def createFreshState_def displacement_def sqrt_gt_10 sqrt_le_10

subsection \<open>Tap, hold, move and cancel\<close>










text \<open>
  Claim C7. A gesture that starts from idle, then any moves and the running out of its
  hold timer in any order, then a pointer-cancel. After the cancel
  \<^verbatim>\<open>state.holdTimer\<close> is null and no hold timer is live; the active pointer, the
  hold-triggered flag, the pending-hold flag and the indicator reference are back at
  their idle values (the whole state object equals the one before the gesture);
  nothing has been executed; the ripple is no longer in \<^verbatim>\<open>activeRipples\<close> and its
  fade-out is scheduled, after which its removal takes it out of the ripple container;
  the indicator, if the hold had fired, is scheduled for removal, which takes it out of
  the document; no listener is left on \<^verbatim>\<open>window\<close> and the card is idle again.
\<close>

theorem C7_pointer_cancel:
  assumes "idle s" and "list_all (during_gesture (nextTimer s)) mid"
  shows "(let cancelled = run inst (PointerDown e # mid @ [PointerCancel]) s
          in holdTimer (state cancelled) = None
             \<and> \<not> holdPending cancelled
             \<and> activePointerId (state cancelled) = None
             \<and> \<not> holdTriggered (state cancelled)
             \<and> \<not> pendingHoldAction (state cancelled)
             \<and> holdIndicator (state cancelled) = None
             \<and> state cancelled = state s
             \<and> executed cancelled = executed s
             \<and> activeRipples cancelled = activeRipples s
             \<and> scheduled (Ripple_fade (nextElement s)) cancelled
             \<and> (body cancelled = body s
                 \<or> body cancelled = body s @ [Suc (nextElement s)]
                   \<and> scheduled (Indicator_detach (Suc (nextElement s))) cancelled)
             \<and> rippleContainer cancelled = rippleContainer s @ [nextElement s]
             \<and> rippleContainer
                  (fireCallback inst (Ripple_detach (nextElement s))
                     (fireCallback inst (Ripple_fade (nextElement s)) cancelled))
                 = rippleContainer s
             \<and> body (fireCallback inst (Indicator_detach (Suc (nextElement s))) cancelled)
                 = body s
             \<and> windowListeners cancelled = []
             \<and> idle cancelled)"
proof -
  let ?x = "run inst mid (step inst (PointerDown e) s)"
  have g: "inGesture inst s e ?x"
    using assms(1) inGesture_down [OF assms(1)] assms(2) by (rule inGesture_run)
  note c = cancel_inGesture [OF assms(1) g]
  note i = idle_state [OF assms(1)]
  have r: "run inst (PointerDown e # mid @ [PointerCancel]) s = step inst PointerCancel ?x"
    by (simp add: run_append del: step.simps)
  have "\<And>y. y \<in> set (rippleContainer s) \<union> set (body s) \<Longrightarrow> y < nextElement s"
    using assms(1) by (auto simp: idle_def freshElements_def list_all_iff)
  then have fe: "nextElement s \<notin> set (rippleContainer s)" "Suc (nextElement s) \<notin> set (body s)"
    by fastforce+
  have rd: "rippleContainer
              (fireCallback inst (Ripple_detach (nextElement s))
                 (fireCallback inst (Ripple_fade (nextElement s)) (step inst PointerCancel ?x)))
            = rippleContainer s"
    using ripple_detached [OF c(6), where inst = inst] c(9) fe(1)
    by (simp add: remove1_fresh_snoc del: step.simps)
  have bd: "body (fireCallback inst (Indicator_detach (Suc (nextElement s)))
              (step inst PointerCancel ?x)) = body s"
    using c(7) fe(2)
    by (auto simp: indicator_detached remove1_fresh_snoc remove1_idem simp del: step.simps)
  show ?thesis
    unfolding Let_def r using c i rd bd by (simp del: step.simps)
qed

theorem C7_pointer_cancel_witness:
  "idle demo_start
   \<and> list_all (during_gesture (nextTimer demo_start))
        [PointerMove (finger 1 103 104), TimerFires 0]
   \<and> state (run demo_card
        [PointerDown (finger 1 100 100), PointerMove (finger 1 103 104), TimerFires 0,
         PointerCancel] demo_start) = createFreshState ''interaction_1''
   \<and> executed (run demo_card
        [PointerDown (finger 1 100 100), PointerMove (finger 1 103 104), TimerFires 0,
         PointerCancel] demo_start) = []
   \<and> \<not> holdPending (run demo_card
        [PointerDown (finger 1 100 100), PointerMove (finger 1 103 104), TimerFires 0,
         PointerCancel] demo_start)
   \<and> body (fireCallback demo_card (Indicator_detach 1) (run demo_card
        [PointerDown (finger 1 100 100), PointerMove (finger 1 103 104), TimerFires 0,
         PointerCancel] demo_start)) = []"
proof -
  have n: "nextTimer demo_start = 0" and x: "executed demo_start = []"
    and st: "state demo_start = createFreshState ''interaction_1''"
    and el: "nextElement demo_start = 0" "body demo_start = []"
    by (simp_all add: demo_start_def setupInteractions_def)
  have mid: "list_all (during_gesture (nextTimer demo_start))
               [PointerMove (finger 1 103 104), TimerFires 0]"
    using n by simp
  show ?thesis
    using C7_pointer_cancel [OF demo_idle mid, where inst = demo_card and e = "finger 1 100 100"]
      demo_idle mid n x st el
    by (simp add: Let_def del: step.simps)
qed

subsection \<open>A second pointer, and navigation\<close>




text \<open>
  Claim C6, as the code has it. A navigation event only sets a 250 ms timer; nothing is
  torn down before the timer runs out. When it runs out and the element is connected,
  the timer in \<^verbatim>\<open>state.holdTimer\<close> is cancelled, the indicator is taken out of the
  document, the ripple container and \<^verbatim>\<open>activeRipples\<close> are emptied, \<^verbatim>\<open>state\<close> is a
  fresh state object, the pointer-down handler is on the element, and nothing has been
  executed, nor does a later pointer-up execute anything. When the element is not
  connected, the timer, the indicator, the ripples and the state stay as they were.
\<close>

theorem C6_navigation_rebuild:
  assumes "navigationAttached s" and "freshHandles s"
  shows "(let waiting = step inst LocationChanged s;
              rebuilt = step inst (TimerFires (nextTimer s)) waiting
          in timers waiting = timers s @ [(nextTimer s, 250, Navigation_rebuild)]
             \<and> state waiting = state s \<and> body waiting = body s
             \<and> rippleContainer waiting = rippleContainer s
             \<and> activeRipples waiting = activeRipples s
             \<and> executed waiting = executed s
             \<and> (if isConnected s
                 then state rebuilt = createFreshState (instanceId (state s))
                      \<and> timers rebuilt
                          = filter (\<lambda>t. Some (fst t) \<noteq> holdTimer (state s)) (timers s)
                      \<and> body rebuilt =
                          (case holdIndicator (state s) of
                             None \<Rightarrow> body s
                           | Some indicator \<Rightarrow> remove1 indicator (body s))
                      \<and> rippleContainer rebuilt = []
                      \<and> activeRipples rebuilt = []
                      \<and> pointerdownAttached rebuilt
                      \<and> executed rebuilt = executed s
                      \<and> executed (step inst (PointerUp u) rebuilt) = executed s
                 else state rebuilt = state s
                      \<and> timers rebuilt = timers s
                      \<and> body rebuilt = body s
                      \<and> rippleContainer rebuilt = rippleContainer s
                      \<and> activeRipples rebuilt = activeRipples s
                      \<and> executed rebuilt = executed s))"
proof -
  let ?w = "step inst LocationChanged s"
  let ?r = "step inst (TimerFires (nextTimer s)) ?w"
  have old: "list_all (\<lambda>t. fst t \<noteq> nextTimer s) (timers s)"
    using assms(2) by (auto simp: freshHandles_def list_all_iff)
  have f: "find (\<lambda>t. fst t = nextTimer s) (timers s @ [(nextTimer s, 250, Navigation_rebuild)])
             = Some (nextTimer s, 250, Navigation_rebuild)"
    using old by (rule find_fresh_append)
  have k: "filter (\<lambda>t. fst t \<noteq> nextTimer s) (timers s) = timers s"
    using assms(2) by (rule fresh_filter)
  have w: "timers ?w = timers s @ [(nextTimer s, 250, Navigation_rebuild)]"
      "state ?w = state s" "body ?w = body s" "rippleContainer ?w = rippleContainer s"
      "activeRipples ?w = activeRipples s" "executed ?w = executed s"
    using assms(1) by (simp_all add: navigationListener_def logged_def setTimeout_def)
  have r: "?r = navigationRebuild
                  (s\<lparr>effects := effects s @ [Logger_info ''Navigation detected, rebuilding interaction system''],
                     timers := timers s, nextTimer := Suc (nextTimer s)\<rparr>)"
    using assms(1) f k
    by (simp add: navigationListener_def logged_def setTimeout_def fireTimer_def clearTimeout_def)
  have off: "\<not> isConnected s \<Longrightarrow> state ?r = state s \<and> timers ?r = timers s \<and> body ?r = body s
      \<and> rippleContainer ?r = rippleContainer s \<and> activeRipples ?r = activeRipples s
      \<and> executed ?r = executed s"
    unfolding r by (simp add: navigationRebuild_def)
  have on: "isConnected s \<Longrightarrow> state ?r = createFreshState (instanceId (state s))
      \<and> timers ?r = filter (\<lambda>t. Some (fst t) \<noteq> holdTimer (state s)) (timers s)
      \<and> body ?r = (case holdIndicator (state s) of None \<Rightarrow> body s
                     | Some indicator \<Rightarrow> remove1 indicator (body s))
      \<and> rippleContainer ?r = [] \<and> activeRipples ?r = [] \<and> pointerdownAttached ?r
      \<and> executed ?r = executed s"
    unfolding r
    by (simp add: navigationRebuild_def resetInteractions_def cancelHoldTimer_def
          clearTimeout_def clearRippleContainer_def logged_def Let_def remove1_idem
          split: option.splits)
  have up: "isConnected s \<Longrightarrow> executed (step inst (PointerUp u) ?r) = executed s"
  proof -
    assume c: "isConnected s"
    have "activePointerId (state ?r) = None"
      using on [OF c] by (simp add: createFreshState_def)
    then have "executed (step inst (PointerUp u) ?r) = executed ?r" by (rule up_inactive)
    then show ?thesis using on [OF c] by simp
  qed
  show ?thesis
    unfolding Let_def using w on off up by (simp del: step.simps)
qed

theorem C6_navigation_rebuild_witness:
  "navigationAttached (run demo_card [PointerDown (finger 1 100 100), TimerFires 0] demo_start)
   \<and> freshHandles (run demo_card [PointerDown (finger 1 100 100), TimerFires 0] demo_start)
   \<and> isConnected (run demo_card [PointerDown (finger 1 100 100), TimerFires 0] demo_start)
   \<and> body (run demo_card [PointerDown (finger 1 100 100), TimerFires 0] demo_start) = [1]
   \<and> state (run demo_card
        [PointerDown (finger 1 100 100), TimerFires 0, LocationChanged, TimerFires 1]
        demo_start) = createFreshState ''interaction_1''
   \<and> body (run demo_card
        [PointerDown (finger 1 100 100), TimerFires 0, LocationChanged, TimerFires 1]
        demo_start) = []
   \<and> executed (run demo_card
        [PointerDown (finger 1 100 100), TimerFires 0, LocationChanged, TimerFires 1,
         PointerUp (finger 1 100 100)] demo_start) = []
   \<and> holdPending (run demo_card [PointerDown (finger 1 100 100)] demo_start)
   \<and> timers (run demo_card
        [PointerDown (finger 1 100 100), LocationChanged, TimerFires 1] demo_start) = []"
proof -
  let ?s = "run demo_card [PointerDown (finger 1 100 100), TimerFires 0] demo_start"
  let ?t = "run demo_card [PointerDown (finger 1 100 100)] demo_start"
  have a': "navigationAttached ?t" and b': "freshHandles ?t" and c': "isConnected ?t"
    and d': "nextTimer ?t = 1" "timers ?t = [(0, 500, Hold_elapsed 0)]"
      "holdTimer (state ?t) = Some 0" "holdPending ?t"
    by (simp_all add: run_defs freshHandles_def holdPending_def demo_start_def demo_card_def
          demo_action_def demo_host_def finger_def)
  have a: "navigationAttached ?s" and b: "freshHandles ?s" and c: "isConnected ?s"
    and d: "nextTimer ?s = 1" "body ?s = [1]" "executed ?s = []"
      "holdIndicator (state ?s) = Some 1" "instanceId (state ?s) = ''interaction_1''"
    by (simp_all add: run_defs freshHandles_def demo_start_def demo_card_def demo_action_def
          demo_host_def finger_def)
  show ?thesis
    using C6_navigation_rebuild [OF a b, where inst = demo_card and u = "finger 1 100 100"]
      C6_navigation_rebuild [OF a' b', where inst = demo_card and u = "finger 1 100 100"]
      a b c d c' d'
    by (simp add: Let_def del: step.simps)
qed

text \<open>
  Claim C6, as it is stated, fails when the element has left the document by the time
  the delay is over: the indicator stays in the document, the hold stays pending, the
  state object is not a fresh one, and the pointer-up after the navigation executes the
  hold action.
\<close>

theorem C6_counterexample:
  "body (run demo_card
      [PointerDown (finger 1 100 100), TimerFires 0, LocationChanged,
       ElementConnected False, TimerFires 1] demo_start) = [1]
   \<and> pendingHoldAction (state (run demo_card
      [PointerDown (finger 1 100 100), TimerFires 0, LocationChanged,
       ElementConnected False, TimerFires 1] demo_start))
   \<and> state (run demo_card
      [PointerDown (finger 1 100 100), TimerFires 0, LocationChanged,
       ElementConnected False, TimerFires 1] demo_start) \<noteq> createFreshState ''interaction_1''
   \<and> holdPending (run demo_card
      [PointerDown (finger 1 100 100), LocationChanged,
       ElementConnected False, TimerFires 1] demo_start)
   \<and> executed (run demo_card
      [PointerDown (finger 1 100 100), TimerFires 0, LocationChanged,
       ElementConnected False, TimerFires 1, PointerUp (finger 1 100 100)] demo_start)
       = [Hold_action]"
  by (simp add: run_defs holdPending_def navigationListener_def navigationRebuild_def
        handleAction_def demo_start_def demo_card_def demo_action_def demo_host_def finger_def)

subsection \<open>The action dispatch\<close>

text \<open>
  Claim C8. \<^verbatim>\<open>handleAction\<close> always returns normally, whatever the descriptor and
  whichever calls into the host throw. In its trace every call into the host that
  threw is followed at once by a call of \<^verbatim>\<open>Logger.error\<close>. For a missing
  descriptor, a missing or empty action, the action \<^verbatim>\<open>none\<close> or an action type it
  does not know it only logs. So the statement after the call in
  \<^verbatim>\<open>handlePointerUp\<close> is always reached, and when the guard on the pointer lets the
  handler run, its cleanup has run when it returns: the active pointer, the flags and
  the hold timer are reset, the indicator reference is dropped if the indicator is in
  the document, the ripple release is scheduled and the three listeners of the
  gesture are off \<^verbatim>\<open>window\<close>.
\<close>

theorem C8_handleAction_never_raises:
  "snd (handleAction h a hs eid) = Inr ()
   \<and> caught h hs (fst (handleAction h a hs eid))
   \<and> list_all is_logging (fst (handleAction h None hs eid))
   \<and> ((case action cfg of
         None \<Rightarrow> True
       | Some name \<Rightarrow> name = [] \<or> name = ''none'' \<or> name \<notin> set known_actions)
      \<longrightarrow> list_all is_logging (fst (handleAction h (Some cfg) hs eid)))
   \<and> fst (executeAction inst which s) = None
   \<and> (activePointerId (state s) = Some (pointerId (ev (closures s g)))
      \<longrightarrow> (let released = handlePointerUp inst g u s
           in activePointerId (state released) = None
              \<and> \<not> holdTriggered (state released)
              \<and> \<not> pendingHoldAction (state released)
              \<and> holdTimer (state released) = None
              \<and> holdIndicator (state released) =
                  (case holdIndicator (state s) of
                     None \<Rightarrow> None
                   | Some i \<Rightarrow> if i \<in> set (body s) then None else Some i)
              \<and> scheduled (Ripple_release g) released
              \<and> windowListeners released =
                  remove1 (On_pointercancel g) (remove1 (On_pointerup g)
                    (remove1 (On_pointermove g) (windowListeners s)))))"
  using handleAction_returns [of h a hs eid] handleAction_caught [of h hs a eid]
    handleAction_none [of h hs eid] handleAction_noop [of cfg h hs eid]
    up_cleanup [of s g inst u]
  by (simp add: executeAction_eq Let_def)

theorem C8_handleAction_never_raises_witness:
  "handleAction throwing_host (Some (demo_action ''expand'')) None ''calendar.family''
     = ([Logger_info ''Executing action: expand'', Call_toggleExpanded,
         Logger_error ''Error executing action expand:''], Inr ())
   \<and> caught throwing_host None
        (fst (handleAction throwing_host (Some (demo_action ''expand'')) None ''calendar.family''))
   \<and> list_all is_logging
        (fst (handleAction throwing_host (Some (demo_action ''none'')) None ''calendar.family''))
   \<and> activePointerId (state (run throwing_card
        [PointerDown (finger 1 100 100), TimerFires 0] demo_start))
       = Some (pointerId (ev (closures (run throwing_card
        [PointerDown (finger 1 100 100), TimerFires 0] demo_start) 0)))
   \<and> activePointerId (state (handlePointerUp throwing_card 0 (finger 1 100 100)
        (run throwing_card [PointerDown (finger 1 100 100), TimerFires 0] demo_start))) = None
   \<and> \<not> pendingHoldAction (state (handlePointerUp throwing_card 0 (finger 1 100 100)
        (run throwing_card [PointerDown (finger 1 100 100), TimerFires 0] demo_start)))
   \<and> holdIndicator (state (handlePointerUp throwing_card 0 (finger 1 100 100)
        (run throwing_card [PointerDown (finger 1 100 100), TimerFires 0] demo_start))) = None"
proof -
  let ?s = "run throwing_card [PointerDown (finger 1 100 100), TimerFires 0] demo_start"
  have t: "handleAction throwing_host (Some (demo_action ''expand'')) None ''calendar.family''
     = ([Logger_info ''Executing action: expand'', Call_toggleExpanded,
         Logger_error ''Error executing action expand:''], Inr ())"
    by (simp add: handleAction_def demo_action_def throwing_host_def try_catch_def perform_def
          host_call_def)
  have n: "case action (demo_action ''none'') of None \<Rightarrow> True
           | Some name \<Rightarrow> name = [] \<or> name = ''none'' \<or> name \<notin> set known_actions"
    by (simp add: demo_action_def)
  have g: "activePointerId (state ?s) = Some (pointerId (ev (closures ?s 0)))"
    and i: "holdIndicator (state ?s) = Some 1" "body ?s = [1]"
    by (simp_all add: run_defs throwing_card_def throwing_host_def demo_start_def demo_card_def
          demo_action_def demo_host_def finger_def)
  show ?thesis
    using C8_handleAction_never_raises [of throwing_host "Some (demo_action ''expand'')" None
        "''calendar.family''" "demo_action ''none''" throwing_card Hold_action ?s 0
        "finger 1 100 100"]
      t n g i
    by (simp add: Let_def del: run.simps step.simps)
qed

end
